theory Spec2Isabelle
  imports Main "HOL-Library.Word"
begin

section \<open>Values of the action\<close>

text \<open>
  The action's entry file \<^verbatim>\<open>src/index.ts\<close> sequences the collaborators of the storage
  check: layout generation, the artifact store, the diff engine, the formatter and the
  annotation calls of the runner. A thrown JavaScript value is an \<open>error\<close>: its message and
  its stack, the empty stack standing for a value whose \<^verbatim>\<open>stack\<close> is falsy.
\<close>

record error =
  message :: string
  stack :: string

text \<open>
  \<^verbatim>\<open>Error(msg)\<close> as \<^verbatim>\<open>index.ts\<close> calls it. The stack text is attached by the runtime, so it is
  an argument.
\<close>

definition Error :: "string \<Rightarrow> string \<Rightarrow> error" where
  "Error trace msg = \<lparr>message = msg, stack = trace\<rparr>"

text \<open>
  Modelled from the spec: the enum \<^verbatim>\<open>StorageLayoutDiffType\<close> of \<^verbatim>\<open>./types\<close>, which is not
  among the sources; \<^verbatim>\<open>index.ts\<close> names only its member \<^verbatim>\<open>VARIABLE_REMOVED\<close>. The members are
  the kinds of the diff taxonomy.
\<close>

datatype StorageLayoutDiffType =
  VARIABLE_ADDED | VARIABLE_REMOVED | VARIABLE_RENAMED | TYPE_CHANGED | SLOT_CHANGED

record position =
  line :: nat
  column :: nat

text \<open>The source span \<^verbatim>\<open>loc\<close> of a formatted diff (\<^verbatim>\<open>loc.start\<close>, \<^verbatim>\<open>loc.end\<close>).\<close>

record location =
  loc_start :: position
  loc_end :: position

record FormattedDiff =
  ftype :: StorageLayoutDiffType
  fmessage :: string
  loc :: location

text \<open>The properties object handed to \<^verbatim>\<open>error\<close> and \<^verbatim>\<open>warning\<close> of \<^verbatim>\<open>@actions/core\<close>.\<close>

record AnnotationProperties =
  title :: "string option"
  "file" :: string
  startLine :: nat
  endLine :: nat
  startColumn :: nat
  endColumn :: nat

text \<open>What the run does to the outside, in the order in which it does it.\<close>

datatype event =
    StartGroup string
  | EndGroup
  | Info string
  | Debug string
  | ErrorAnnotation string AnnotationProperties
  | WarningAnnotation string AnnotationProperties
  | WriteFileSync string string
  | UploadArtifact string string
  | ListArtifactsPage
  | SetTimeout int
  | DownloadArtifact nat
  | SetFailed error
  | ProcessExit

text \<open>An action: the events it emitted, and either the value thrown or the value returned.\<close>

type_synonym 'a action = "event list \<times> (error + 'a)"

definition and_then :: "'a action \<Rightarrow> ('a \<Rightarrow> 'b action) \<Rightarrow> 'b action" where
  "and_then m f =
     (case m of
        (evs, Inl e) \<Rightarrow> (evs, Inl e)
      | (evs, Inr x) \<Rightarrow> (case f x of (evs', r) \<Rightarrow> (evs @ evs', r)))"

definition emit :: "event list \<Rightarrow> unit action" where
  "emit evs = (evs, Inr ())"

definition throw :: "error \<Rightarrow> 'a action" where
  "throw e = ([], Inl e)"

definition return_value :: "'a \<Rightarrow> 'a action" where
  "return_value x = ([], Inr x)"

section \<open>Severity lookup and the pass/fail decision\<close>

text \<open>
  The tables \<^verbatim>\<open>diffLevels\<close> and \<^verbatim>\<open>diffTitles\<close> of \<^verbatim>\<open>./format\<close> are not among the sources: they
  are arguments, objects indexed by the diff kind, a missing key reading as \<^verbatim>\<open>undefined\<close>.

  Line 148, \<^verbatim>\<open>diffLevels[formattedDiff.type] || "error"\<close>: a value that is undefined or the
  empty string is falsy.
\<close>

type_synonym levels = "StorageLayoutDiffType \<Rightarrow> string option"
type_synonym titles = "StorageLayoutDiffType \<Rightarrow> string option"

definition level :: "levels \<Rightarrow> FormattedDiff \<Rightarrow> string" where
  "level diffLevels formattedDiff =
     (case diffLevels (ftype formattedDiff) of
        None \<Rightarrow> ''error''
      | Some l \<Rightarrow> if l = [] then ''error'' else l)"

text \<open>Lines 149 to 156: the annotation call for one formatted diff.\<close>

definition annotate :: "levels \<Rightarrow> titles \<Rightarrow> string \<Rightarrow> FormattedDiff \<Rightarrow> event" where
  "annotate diffLevels diffTitles path formattedDiff =
     (let props = \<lparr>title = diffTitles (ftype formattedDiff),
                   file = path,
                   startLine = line (loc_start (loc formattedDiff)),
                   endLine = line (loc_end (loc formattedDiff)),
                   startColumn = column (loc_start (loc formattedDiff)),
                   endColumn = column (loc_end (loc formattedDiff))\<rparr>
      in if level diffLevels formattedDiff = ''error''
         then ErrorAnnotation (fmessage formattedDiff) props
         else WarningAnnotation (fmessage formattedDiff) props)"

text \<open>
  Lines 144 to 159, \<^verbatim>\<open>diffs.map(...)\<close>: each diff is formatted and annotated in turn; a throw
  of \<^verbatim>\<open>formatDiff\<close> ends the map there. \<^verbatim>\<open>formatDiff\<close> (of \<^verbatim>\<open>./format\<close>) is an argument, already
  applied to the parsed source.
\<close>

fun formatDiffs ::
  "levels \<Rightarrow> titles \<Rightarrow> string \<Rightarrow> ('d \<Rightarrow> error + FormattedDiff) \<Rightarrow> 'd list
     \<Rightarrow> FormattedDiff list action" where
  "formatDiffs diffLevels diffTitles path formatDiff [] = ([], Inr [])"
| "formatDiffs diffLevels diffTitles path formatDiff (diff # diffs) =
     (case formatDiff diff of
        Inl e \<Rightarrow> ([], Inl e)
      | Inr formattedDiff \<Rightarrow>
          (case formatDiffs diffLevels diffTitles path formatDiff diffs of
             (evs, Inl e) \<Rightarrow> (annotate diffLevels diffTitles path formattedDiff # evs, Inl e)
           | (evs, Inr rest) \<Rightarrow>
               (annotate diffLevels diffTitles path formattedDiff # evs,
                Inr (formattedDiff # rest))))"

text \<open>Lines 161 to 166: the condition under which the run throws.\<close>

definition unsafe :: "levels \<Rightarrow> bool \<Rightarrow> FormattedDiff list \<Rightarrow> bool" where
  "unsafe diffLevels failOnRemoval formattedDiffs =
     (length (filter (\<lambda>diff. diffLevels (ftype diff) = Some ''error'') formattedDiffs) > 0
      \<or> (failOnRemoval
          \<and> length (filter (\<lambda>diff. ftype diff = VARIABLE_REMOVED) formattedDiffs) > 0))"

definition unsafeMessage :: string where
  "unsafeMessage = ''Unsafe storage layout changes detected. Please see above for details.''"

text \<open>
  What the diff phase reads: the module constants \<^verbatim>\<open>failOnRemoval\<close> and \<^verbatim>\<open>contractAbs\<close>, the two
  tables, \<^verbatim>\<open>parseSource\<close> and \<^verbatim>\<open>formatDiff\<close> of the repository, the path of the parsed source
  (\<^verbatim>\<open>cmpDef.path\<close>) and the stack text of an \<^verbatim>\<open>Error\<close> created here.
\<close>

record ('c, 'd) reporter =
  failOnRemoval :: bool
  contractAbs :: string
  diffLevels :: levels
  diffTitles :: titles
  parseSource :: "string \<Rightarrow> error + 'c"
  formatDiff :: "'c \<Rightarrow> 'd \<Rightarrow> error + FormattedDiff"
  path :: "'c \<Rightarrow> string"
  trace :: string

text \<open>Lines 140 to 170: what \<^verbatim>\<open>_run\<close> does with the diffs that \<^verbatim>\<open>checkLayouts\<close> returned.\<close>

definition reportDiffs :: "('c, 'd, 'z) reporter_scheme \<Rightarrow> 'd list \<Rightarrow> unit action" where
  "reportDiffs r diffs =
     (if length diffs > 0 then
        and_then (emit [Info ''Parse source code'']) (\<lambda>_.
        and_then ([], parseSource r (contractAbs r)) (\<lambda>cmpDef.
        and_then (formatDiffs (diffLevels r) (diffTitles r) (path r cmpDef)
                    (formatDiff r cmpDef) diffs) (\<lambda>formattedDiffs.
        if unsafe (diffLevels r) (failOnRemoval r) formattedDiffs
        then throw (Error (trace r) unsafeMessage)
        else emit [EndGroup])))
      else emit [EndGroup])"

section \<open>The run\<close>

text \<open>Template literals: a number is interpolated in decimal, a quoted name between double quotes.\<close>

fun decimal :: "nat \<Rightarrow> string" where
  "decimal n =
     (if n < 10 then [char_of (48 + n)]
      else decimal (n div 10) @ [char_of (48 + n mod 10)])"

declare decimal.simps [simp del]

definition quoted :: "string \<Rightarrow> string" where
  "quoted s = [CHR 0x22] @ s @ [CHR 0x22]"

text \<open>
  An artifact of the repository's listing, with the fields the search reads:
  \<^verbatim>\<open>id\<close>, \<^verbatim>\<open>name\<close>, \<^verbatim>\<open>expired\<close> and \<^verbatim>\<open>workflow_run?.head_sha\<close>.
\<close>

record artifact =
  artifact_id :: nat
  artifact_name :: string
  expired :: bool
  head_sha :: "string option"

text \<open>
  \<^verbatim>\<open>octokit.paginate.iterator\<close> yields the pages of the listing one at a time. Nothing in
  \<^verbatim>\<open>index.ts\<close> bounds their number, so a pager may be endless.
\<close>

codatatype 'a pager = Exhausted | Page 'a "'a pager"

primrec pages :: "'a list \<Rightarrow> 'a pager" where
  "pages [] = Exhausted"
| "pages (p # ps) = Page p (pages ps)"

text \<open>An entry of the downloaded archive: its name and what \<^verbatim>\<open>zip.readAsText\<close> reads from it.\<close>

record entry =
  entryName :: string
  readAsText :: string

text \<open>The options object of \<^verbatim>\<open>checkLayouts\<close> (lines 134 to 138).\<close>

record 'p options =
  optAddress :: string
  optProvider :: "'p option"
  checkRemovals :: bool

text \<open>
  The module constants of lines 25 to 53 and the collaborators of \<^verbatim>\<open>_run\<close>. Of the
  repository, \<^verbatim>\<open>createLayout\<close>, \<^verbatim>\<open>parseLayout\<close>, \<^verbatim>\<open>parseSource\<close> and \<^verbatim>\<open>formatDiff\<close> may throw;
  \<^verbatim>\<open>checkLayouts\<close> returns the diffs. \<^verbatim>\<open>fs.writeFileSync\<close> returns nothing or throws;
  \<^verbatim>\<open>artifactClient.uploadArtifact\<close>, awaited, throws or answers the id of the upload response
  (\<^verbatim>\<open>None\<close> for \<^verbatim>\<open>null\<close> or \<^verbatim>\<open>undefined\<close>). The listing is given by its pages and a downloaded
  archive by its entries.
\<close>

record ('c, 'd, 'l, 'p) world = "('c, 'd) reporter" +
  contract :: string
  workingDirectory :: string
  address :: string
  rpcUrl :: string
  retryDelay :: int
  baseBranch :: string
  baseReport :: string
  outReport :: string
  localReportPath :: string
  repository :: string
  eventName :: string
  getDefaultProvider :: "string \<Rightarrow> 'p"
  createLayout :: "string \<Rightarrow> string \<Rightarrow> error + string"
  parseLayout :: "string option \<Rightarrow> error + 'l"
  writeFileSync :: "string \<Rightarrow> string \<Rightarrow> error option"
  uploadArtifact :: "string \<Rightarrow> string \<Rightarrow> error + nat option"
  listArtifactsForRepo :: "artifact list pager"
  downloadArtifact :: "nat \<Rightarrow> entry list"
  checkLayouts :: "'l \<Rightarrow> 'l \<Rightarrow> 'p options \<Rightarrow> 'd list"

text \<open>Line 53: \<^verbatim>\<open>rpcUrl ? getDefaultProvider(rpcUrl) : undefined\<close>; the empty string is falsy.\<close>

definition provider :: "('c, 'd, 'l, 'p) world \<Rightarrow> 'p option" where
  "provider w = (if rpcUrl w \<noteq> [] then Some (getDefaultProvider w (rpcUrl w)) else None)"

text \<open>Lines 59 to 64: the head layout is generated and parsed.\<close>

definition generateLayout :: "('c, 'd, 'l, 'p) world \<Rightarrow> (string \<times> 'l) action" where
  "generateLayout w =
     and_then (emit [StartGroup (''Generate storage layout of contract '' @ quoted (contract w)
                                  @ '' using foundry forge''),
                     Info ''Start forge process'']) (\<lambda>_.
     and_then ([], createLayout w (contract w) (workingDirectory w)) (\<lambda>cmpContent.
     and_then (emit [Info ''Parse generated layout'']) (\<lambda>_.
     and_then ([], parseLayout w (Some cmpContent)) (\<lambda>cmpLayout.
     and_then (emit [EndGroup]) (\<lambda>_.
     return_value (cmpContent, cmpLayout))))))"

text \<open>
  Lines 66 to 80: the report is written and uploaded. A throw of \<^verbatim>\<open>fs.writeFileSync\<close> (line
  67) or of the awaited \<^verbatim>\<open>uploadArtifact\<close> (lines 70 to 75) leaves \<^verbatim>\<open>_run\<close> as it is; an upload
  response without an id is turned into an \<^verbatim>\<open>Error\<close> at line 77.
\<close>

definition uploadReport :: "('c, 'd, 'l, 'p) world \<Rightarrow> string \<Rightarrow> unit action" where
  "uploadReport w cmpContent =
     and_then (emit [WriteFileSync (localReportPath w) cmpContent]) (\<lambda>_.
     and_then ([], case writeFileSync w (localReportPath w) cmpContent of
                     Some e \<Rightarrow> Inl e
                   | None \<Rightarrow> Inr ()) (\<lambda>_.
     and_then (emit [StartGroup (''Upload new report from '' @ quoted (localReportPath w)
                                  @ '' as artifact named '' @ quoted (outReport w)),
                     UploadArtifact (outReport w) (localReportPath w)]) (\<lambda>_.
     and_then ([], uploadArtifact w (outReport w) (localReportPath w)) (\<lambda>uploadResponse_id.
     case uploadResponse_id of
       None \<Rightarrow> throw (Error (trace w) ''Failed to upload storage layout report.'')
     | Some i \<Rightarrow>
         emit [Info (''Artifact '' @ decimal i @ '' has been successfully uploaded!''),
               EndGroup]))))"

text \<open>
  Lines 89 to 106, the \<^verbatim>\<open>for await\<close> loop over the pages. A page without a live artifact of
  the wanted name costs one \<^verbatim>\<open>setTimeout\<close> of \<^verbatim>\<open>retryDelay\<close> and the loop takes the next page;
  the first page with one ends the loop. The loop also ends when the pager is exhausted. The
  result is \<^verbatim>\<open>None\<close> when the loop never ends.
\<close>

definition foundMessage :: "string \<Rightarrow> artifact \<Rightarrow> string" where
  "foundMessage name a =
     ''Found artifact named '' @ quoted name @ '' with ID '' @ quoted (decimal (artifact_id a))
       @ '' from commit ''
       @ quoted (case head_sha a of None \<Rightarrow> ''undefined'' | Some sha \<Rightarrow> sha)"

partial_function (option) searchArtifact ::
  "string \<Rightarrow> int \<Rightarrow> artifact list pager \<Rightarrow> (event list \<times> artifact option) option" where
  "searchArtifact name delay pager =
     (case pager of
        Exhausted \<Rightarrow> Some ([], None)
      | Page res rest \<Rightarrow>
          (case find (\<lambda>artifact. \<not> expired artifact \<and> artifact_name artifact = name) res of
             None \<Rightarrow>
               Option.bind (searchArtifact name delay rest)
                 (\<lambda>(evs, found). Some (ListArtifactsPage # SetTimeout delay # evs, found))
           | Some artifact \<Rightarrow>
               Some ([ListArtifactsPage, Info (foundMessage name artifact)], Some artifact)))"

declare searchArtifact.simps [code]

text \<open>
  Lines 122 to 125: every entry of the archive is read into the one variable \<^verbatim>\<open>srcContent\<close>,
  which is \<^verbatim>\<open>undefined\<close> (\<^verbatim>\<open>None\<close>) until the first assignment.
\<close>

fun readEntries :: "string option \<Rightarrow> entry list \<Rightarrow> event list \<times> string option" where
  "readEntries srcContent [] = ([], srcContent)"
| "readEntries srcContent (entry # entries) =
     (case readEntries (Some (readAsText entry)) entries of
        (evs, srcContent') \<Rightarrow>
          (Info (''Loading storage layout report from '' @ quoted (entryName entry)) # evs,
           srcContent'))"

text \<open>
  Lines 109 to 127. \<^verbatim>\<open>artifactId\<close> is \<^verbatim>\<open>null\<close> when the search found nothing, and
  \<^verbatim>\<open>if (artifactId)\<close> is also false for the id 0.
\<close>

definition downloadReport ::
  "('c, 'd, 'l, 'p) world \<Rightarrow> artifact option \<Rightarrow> string option action" where
  "downloadReport w found =
     (case (case found of None \<Rightarrow> None
            | Some a \<Rightarrow> if artifact_id a \<noteq> 0 then Some (artifact_id a) else None) of
        Some artifactId \<Rightarrow>
          (case readEntries None (downloadArtifact w artifactId) of
             (evs, srcContent) \<Rightarrow>
               ([StartGroup (''Downloading artifact '' @ quoted (baseReport w)
                              @ '' of repository '' @ quoted (repository w)
                              @ '' with ID '' @ quoted (decimal artifactId)),
                 DownloadArtifact artifactId] @ evs @ [EndGroup],
                Inr srcContent))
      | None \<Rightarrow>
          throw (Error (trace w)
                  (''No workflow run found with an artifact named '' @ quoted (baseReport w))))"

text \<open>Lines 129 to 170: the base report is parsed, the layouts are compared, the diffs reported.\<close>

definition compareLayouts ::
  "('c, 'd, 'l, 'p) world \<Rightarrow> 'l \<Rightarrow> string option \<Rightarrow> unit action" where
  "compareLayouts w cmpLayout srcContent =
     and_then (emit [Info ''Mapping reference storage layout report'']) (\<lambda>_.
     and_then ([], parseLayout w srcContent) (\<lambda>srcLayout.
     and_then (emit [EndGroup, StartGroup ''Check storage layout'']) (\<lambda>_.
     reportDiffs w
       (checkLayouts w srcLayout cmpLayout
          \<lparr>optAddress = address w, optProvider = provider w,
           checkRemovals = failOnRemoval w\<rparr>))))"

text \<open>Lines 58 to 80 together: the head layout, once its report is written and uploaded.\<close>

definition headReport :: "('c, 'd, 'l, 'p) world \<Rightarrow> 'l action" where
  "headReport w =
     and_then (generateLayout w) (\<lambda>(cmpContent, cmpLayout).
     and_then (uploadReport w cmpContent) (\<lambda>_.
     return_value cmpLayout))"

text \<open>
  Lines 84 to 170, given what the search loop did and found: the search group is opened
  before the loop and closed after it, then the base report is downloaded and compared.
\<close>

definition baseComparison ::
  "('c, 'd, 'l, 'p) world \<Rightarrow> 'l \<Rightarrow> event list \<times> artifact option \<Rightarrow> unit action" where
  "baseComparison w cmpLayout search =
     and_then ([StartGroup (''Searching artifact '' @ quoted (baseReport w)
                  @ '' on repository '' @ quoted (repository w)
                  @ '', on branch '' @ quoted (baseBranch w))]
               @ fst search @ [EndGroup], Inr (snd search)) (\<lambda>found.
     and_then (downloadReport w found) (\<lambda>srcContent.
     compareLayouts w cmpLayout srcContent))"

text \<open>
  \<^verbatim>\<open>_run\<close>, lines 58 to 171 (an Isabelle name starts with a letter). Line 82 returns at once
  unless the event is a pull request. \<^verbatim>\<open>None\<close>: the search of the base artifact never ends.
\<close>

definition run_inner :: "('c, 'd, 'l, 'p) world \<Rightarrow> unit action option" where
  "run_inner w =
     (case headReport w of
        (evs, Inl e) \<Rightarrow> Some (evs, Inl e)
      | (evs, Inr cmpLayout) \<Rightarrow>
          if eventName w \<noteq> ''pull_request'' then Some (evs, Inr ())
          else
            map_option
              (\<lambda>search. and_then (evs, Inr ()) (\<lambda>_. baseComparison w cmpLayout search))
              (searchArtifact (baseReport w) (retryDelay w) (listArtifactsForRepo w)))"

text \<open>
  \<^verbatim>\<open>run\<close>, lines 173 to 182: whatever \<^verbatim>\<open>_run\<close> throws goes to \<^verbatim>\<open>setFailed\<close>, its stack (when
  truthy) to \<^verbatim>\<open>debug\<close>, and the process exits. The result is everything the process did.
\<close>

definition run :: "('c, 'd, 'l, 'p) world \<Rightarrow> event list option" where
  "run w =
     map_option
       (\<lambda>(evs, r).
          case r of
            Inl e \<Rightarrow>
              evs @ [SetFailed e] @ (if stack e \<noteq> [] then [Debug (stack e)] else [])
                @ [ProcessExit]
          | Inr _ \<Rightarrow> evs @ [ProcessExit])
       (run_inner w)"

section \<open>The diff engine\<close>

text \<open>
  Modelled from the spec: the layout model of \<^verbatim>\<open>./types\<close>, which is not among the sources. A
  storage variable has a name, a type signature compared as a token, a size in bytes, a slot
  and a byte offset in the slot; a layout is the sequence of the variables in declaration
  order.
\<close>

record StorageVariable =
  name :: string
  typeSignature :: string
  byteSize :: nat
  slot :: nat
  offset :: nat

type_synonym StorageLayout = "StorageVariable list"

text \<open>
  Modelled from the spec: the diff record of \<^verbatim>\<open>./types\<close>. The counterpart is the old name of a
  renamed variable and the base type signature of a variable whose type changed; the
  on-chain evidence is the 32-byte word read at the slot of a removed variable.
\<close>

record DiffRecord =
  kind :: StorageLayoutDiffType
  variableName :: string
  counterpart :: "string option"
  baseVariable :: "StorageVariable option"
  headVariable :: "StorageVariable option"
  onChainEvidence :: "256 word option"

text \<open>
  Modelled from the spec: the network endpoint of the on-chain verifier, which answers the
  word stored at a slot of the contract at an address, or nothing when the read fails.
\<close>

type_synonym endpoint = "string \<Rightarrow> nat \<Rightarrow> 256 word option"

text \<open>
  Modelled from the spec: the primary match of \<^verbatim>\<open>checkLayouts\<close> (\<^verbatim>\<open>./check\<close> is not among the
  sources). A head variable found by name in the base layout gives \<^verbatim>\<open>TYPE_CHANGED\<close> when the
  type signatures differ, else \<^verbatim>\<open>SLOT_CHANGED\<close> when slot or offset differ, else no diff.
\<close>

definition lookupName :: "StorageLayout \<Rightarrow> string \<Rightarrow> StorageVariable option" where
  "lookupName layout n = find (\<lambda>b. name b = n) layout"

definition primaryDiff :: "StorageVariable \<Rightarrow> StorageVariable \<Rightarrow> DiffRecord list" where
  "primaryDiff b h =
     (if typeSignature b \<noteq> typeSignature h then
        [\<lparr>kind = TYPE_CHANGED, variableName = name h, counterpart = Some (typeSignature b),
          baseVariable = Some b, headVariable = Some h, onChainEvidence = None\<rparr>]
      else if (slot b, offset b) \<noteq> (slot h, offset h) then
        [\<lparr>kind = SLOT_CHANGED, variableName = name h, counterpart = None,
          baseVariable = Some b, headVariable = Some h, onChainEvidence = None\<rparr>]
      else [])"

text \<open>
  Modelled from the spec: the base variables that the primary match leaves unmatched, in
  base declaration order.
\<close>

definition unmatchedByName :: "StorageLayout \<Rightarrow> StorageLayout \<Rightarrow> StorageVariable list" where
  "unmatchedByName baseLayout headLayout =
     filter (\<lambda>b. \<not> (\<exists>h \<in> set headLayout. lookupName baseLayout (name h) = Some b)) baseLayout"

text \<open>
  Modelled from the spec: the secondary match. A head variable not found by name takes the
  first unmatched base variable of the same slot, offset and type signature, which is
  consumed and gives \<^verbatim>\<open>VARIABLE_RENAMED\<close>; without one it gives \<^verbatim>\<open>VARIABLE_ADDED\<close>. The diffs
  come in head declaration order, with the base variables still unmatched at the end.
\<close>

definition samePlace :: "StorageVariable \<Rightarrow> StorageVariable \<Rightarrow> bool" where
  "samePlace b h = (slot b = slot h \<and> offset b = offset h \<and> typeSignature b = typeSignature h)"

fun align ::
  "StorageLayout \<Rightarrow> StorageVariable list \<Rightarrow> StorageLayout
     \<Rightarrow> DiffRecord list \<times> StorageVariable list" where
  "align baseLayout unmatched [] = ([], unmatched)"
| "align baseLayout unmatched (h # hs) =
     (case lookupName baseLayout (name h) of
        Some b \<Rightarrow>
          (case align baseLayout unmatched hs of
             (diffs, rest) \<Rightarrow> (primaryDiff b h @ diffs, rest))
      | None \<Rightarrow>
          (case find (\<lambda>b. samePlace b h) unmatched of
             Some b \<Rightarrow>
               (case align baseLayout (remove1 b unmatched) hs of
                  (diffs, rest) \<Rightarrow>
                    (\<lparr>kind = VARIABLE_RENAMED, variableName = name h,
                      counterpart = Some (name b), baseVariable = Some b,
                      headVariable = Some h, onChainEvidence = None\<rparr> # diffs, rest))
           | None \<Rightarrow>
               (case align baseLayout unmatched hs of
                  (diffs, rest) \<Rightarrow>
                    (\<lparr>kind = VARIABLE_ADDED, variableName = name h, counterpart = None,
                      baseVariable = None, headVariable = Some h,
                      onChainEvidence = None\<rparr> # diffs, rest))))"

text \<open>
  Modelled from the spec: the base variables that both passes leave unmatched, in base
  declaration order. These are the variables present in the base layout and absent from the
  head layout, the genuine removals; a variable that the secondary match takes as the old
  side of a rename is not among them.
\<close>

definition stillUnmatched :: "StorageLayout \<Rightarrow> StorageLayout \<Rightarrow> StorageVariable list" where
  "stillUnmatched baseLayout headLayout =
     snd (align baseLayout (unmatchedByName baseLayout headLayout) headLayout)"

definition removal :: "StorageVariable \<Rightarrow> DiffRecord" where
  "removal b =
     \<lparr>kind = VARIABLE_REMOVED, variableName = name b, counterpart = None,
      baseVariable = Some b, headVariable = None, onChainEvidence = None\<rparr>"

text \<open>
  Modelled from the spec: the on-chain removal verifier. It runs only when an address and an
  endpoint are both supplied; it reads the word at the slot of the removed variable and
  attaches it, a failed read leaving the evidence out.
\<close>

definition onChainEnabled :: "endpoint options \<Rightarrow> bool" where
  "onChainEnabled opts = (optAddress opts \<noteq> [] \<and> optProvider opts \<noteq> None)"

definition annotateRemoval :: "DiffRecord \<Rightarrow> string \<Rightarrow> endpoint \<Rightarrow> DiffRecord" where
  "annotateRemoval d addr read =
     (case baseVariable d of
        None \<Rightarrow> d
      | Some b \<Rightarrow> d\<lparr>onChainEvidence := read addr (slot b)\<rparr>)"

text \<open>
  Modelled from the spec: \<^verbatim>\<open>checkLayouts\<close>. Removals are computed, annotated by the on-chain
  verifier when it is enabled, and surfaced only when \<^verbatim>\<open>checkRemovals\<close> is set, after the diffs
  of the head variables. The first component lists the on-chain reads made, as address and
  slot.
\<close>

definition checkLayoutsSpec ::
  "StorageLayout \<Rightarrow> StorageLayout \<Rightarrow> endpoint options
     \<Rightarrow> (string \<times> nat) list \<times> DiffRecord list" where
  "checkLayoutsSpec baseLayout headLayout opts =
     (case align baseLayout (unmatchedByName baseLayout headLayout) headLayout of
        (diffs, removed) \<Rightarrow>
          (case (if onChainEnabled opts then optProvider opts else None) of
             Some read \<Rightarrow>
               (map (\<lambda>b. (optAddress opts, slot b)) removed,
                diffs @ (if checkRemovals opts
                         then map (\<lambda>b. annotateRemoval (removal b) (optAddress opts) read) removed
                         else []))
           | None \<Rightarrow>
               ([], diffs @ (if checkRemovals opts then map removal removed else []))))"

text \<open>
  Modelled from the spec: the severity table \<^verbatim>\<open>diffLevels\<close> of \<^verbatim>\<open>./format\<close>, as the taxonomy
  gives it; a removal is in the output only when removals are checked, and is then an error.
\<close>

definition diffLevelsSpec :: levels where
  "diffLevelsSpec t =
     (case t of
        VARIABLE_ADDED \<Rightarrow> Some ''warning''
      | VARIABLE_REMOVED \<Rightarrow> Some ''error''
      | VARIABLE_RENAMED \<Rightarrow> Some ''warning''
      | TYPE_CHANGED \<Rightarrow> Some ''error''
      | SLOT_CHANGED \<Rightarrow> Some ''error'')"

section \<open>Observations on a run\<close>

text \<open>The events that report a diff, and the events that reach for the base report.\<close>

fun isAnnotation :: "event \<Rightarrow> bool" where
  "isAnnotation (ErrorAnnotation m p) = True"
| "isAnnotation (WarningAnnotation m p) = True"
| "isAnnotation ev = False"

fun touchesBase :: "event \<Rightarrow> bool" where
  "touchesBase ListArtifactsPage = True"
| "touchesBase (SetTimeout d) = True"
| "touchesBase (DownloadArtifact i) = True"
| "touchesBase ev = False"

text \<open>A pager that yields the same page for ever.\<close>

primcorec endless :: "'a \<Rightarrow> 'a pager" where
  "endless res = Page res (endless res)"

section \<open>Sample runs\<close>

text \<open>
  Concrete collaborators on which the statements below are evaluated: a formatter that keeps
  the kind of a diff record and points at the first line, and a reporter over a given table
  and removal flag.
\<close>

definition plainFormat :: "unit \<Rightarrow> DiffRecord \<Rightarrow> error + FormattedDiff" where
  "plainFormat cmpDef d =
     Inr \<lparr>ftype = kind d, fmessage = variableName d,
          loc = \<lparr>loc_start = \<lparr>line = 1, column = 0\<rparr>, loc_end = \<lparr>line = 1, column = 0\<rparr>\<rparr>\<rparr>"

definition sampleReporter :: "levels \<Rightarrow> bool \<Rightarrow> (unit, DiffRecord) reporter" where
  "sampleReporter lv fr =
     \<lparr>failOnRemoval = fr, contractAbs = ''src/Vault.sol'', diffLevels = lv,
      diffTitles = (\<lambda>t. None), parseSource = (\<lambda>p. Inr ()), formatDiff = plainFormat,
      path = (\<lambda>c. ''src/Vault.sol''), trace = ''Error''\<rparr>"

definition noLevels :: levels where
  "noLevels t = None"

definition owner :: StorageVariable where
  "owner = \<lparr>name = ''owner'', typeSignature = ''address'', byteSize = 20, slot = 0, offset = 0\<rparr>"

definition admin :: StorageVariable where
  "admin = \<lparr>name = ''admin'', typeSignature = ''address'', byteSize = 20, slot = 0, offset = 0\<rparr>"

definition total :: StorageVariable where
  "total = \<lparr>name = ''total'', typeSignature = ''uint256'', byteSize = 32, slot = 1, offset = 0\<rparr>"

text \<open>
  A layout parser for the sample runs: it knows three reports and rejects everything else,
  the undefined content included.
\<close>

definition malformed :: error where
  "malformed = \<lparr>message = ''MalformedLayoutError'', stack = ''MalformedLayoutError at parseLayout''\<rparr>"

definition sampleParse :: "string option \<Rightarrow> error + StorageLayout" where
  "sampleParse content =
     (if content = Some ''owner'' then Inr [owner]
      else if content = Some ''admin'' then Inr [admin]
      else if content = Some ''owner total'' then Inr [owner, total]
      else Inl malformed)"

text \<open>
  A world for the sample runs, given the triggering event, the removal flag, the generated
  content, the id of the upload response, the pages of the artifact listing and the entries
  of the archive.
\<close>

definition sampleWorld ::
  "string \<Rightarrow> bool \<Rightarrow> string \<Rightarrow> nat option \<Rightarrow> artifact list pager \<Rightarrow> entry list
     \<Rightarrow> (unit, DiffRecord, StorageLayout, endpoint) world" where
  "sampleWorld ev fr content uploaded listing archive =
     \<lparr>failOnRemoval = fr, contractAbs = ''src/Vault.sol'', diffLevels = diffLevelsSpec,
      diffTitles = (\<lambda>t. None), parseSource = (\<lambda>p. Inr ()), formatDiff = plainFormat,
      path = (\<lambda>c. ''src/Vault.sol''), trace = ''Error'',
      contract = ''src/Vault.sol'', workingDirectory = ''.'', address = [], rpcUrl = [],
      retryDelay = 5000, baseBranch = ''main'', baseReport = ''main.Vault.json'',
      outReport = ''dev.Vault.json'', localReportPath = ''/work/dev.Vault.json'',
      repository = ''acme/vault'', eventName = ev,
      getDefaultProvider = (\<lambda>url addr sl. None),
      createLayout = (\<lambda>c d. Inr content), parseLayout = sampleParse,
      writeFileSync = (\<lambda>p c. None), uploadArtifact = (\<lambda>n p. Inr uploaded),
      listArtifactsForRepo = listing,
      downloadArtifact = (\<lambda>i. archive),
      checkLayouts = (\<lambda>b h opts. snd (checkLayoutsSpec b h opts))\<rparr>"

text \<open>The same world on a file system that refuses the write of the report.\<close>

definition readOnly :: error where
  "readOnly = \<lparr>message = ''EROFS: read-only file system, open'', stack = ''Error: EROFS''\<rparr>"

definition refuseWrite :: "string \<Rightarrow> string \<Rightarrow> error option" where
  "refuseWrite p c = Some readOnly"

definition readOnlyWorld :: "(unit, DiffRecord, StorageLayout, endpoint) world" where
  "readOnlyWorld =
     (sampleWorld ''push'' True ''owner'' (Some 12) Exhausted [])\<lparr>writeFileSync := refuseWrite\<rparr>"

definition baseArtifact :: artifact where
  "baseArtifact =
     \<lparr>artifact_id = 7, artifact_name = ''main.Vault.json'', expired = False,
      head_sha = Some ''c0ffee''\<rparr>"

definition otherArtifact :: artifact where
  "otherArtifact =
     \<lparr>artifact_id = 3, artifact_name = ''dev.Vault.json'', expired = False, head_sha = None\<rparr>"

section \<open>The pass/fail decision\<close>

lemma formatDiffs_all:
  "map f diffs = map Inr fds \<Longrightarrow>
   formatDiffs lv ti p f diffs = (map (annotate lv ti p) fds, Inr fds)"
proof (induction diffs arbitrary: fds)
  case Nil
  then show ?case by simp
next
  case (Cons d ds)
  then obtain g gs where fds: "fds = g # gs" and g: "f d = Inr g" and gs: "map f ds = map Inr gs"
    by (cases fds) auto
  from Cons.IH [OF gs] g show ?case
    by (simp add: fds)
qed

lemma unsafe_iff:
  "unsafe lv fr fds \<longleftrightarrow>
     (\<exists>diff \<in> set fds. lv (ftype diff) = Some ''error'')
     \<or> (fr \<and> (\<exists>diff \<in> set fds. ftype diff = VARIABLE_REMOVED))"
  by (auto simp: unsafe_def filter_empty_conv)

lemma reportDiffs_formatted:
  assumes "parseSource r (contractAbs r) = Inr cmpDef"
      and "map (formatDiff r cmpDef) diffs = map Inr fds"
      and "diffs \<noteq> []"
  shows "reportDiffs r diffs =
           (Info ''Parse source code''
              # map (annotate (diffLevels r) (diffTitles r) (path r cmpDef)) fds
              @ (if unsafe (diffLevels r) (failOnRemoval r) fds then [] else [EndGroup]),
            if unsafe (diffLevels r) (failOnRemoval r) fds
            then Inl (Error (trace r) unsafeMessage) else Inr ())"
  using assms
  by (simp add: reportDiffs_def and_then_def emit_def throw_def formatDiffs_all)

lemma reportDiffs_Nil: "reportDiffs r [] = ([EndGroup], Inr ())"
  by (simp add: reportDiffs_def emit_def)

text \<open>
  C1. When the source parses and every diff formats, the diff phase throws the unsafe-layout
  error exactly when some formatted diff has a kind that the severity table maps to
  \<^verbatim>\<open>"error"\<close>, or \<^verbatim>\<open>failOnRemoval\<close> is set and some formatted diff is a \<^verbatim>\<open>VARIABLE_REMOVED\<close>;
  otherwise, and so for no diff at all or for warnings only, it returns normally.
\<close>

theorem check_fails_iff:
  assumes "parseSource r (contractAbs r) = Inr cmpDef"
      and "map (formatDiff r cmpDef) diffs = map Inr formattedDiffs"
  shows "snd (reportDiffs r diffs) =
           (if (\<exists>diff \<in> set formattedDiffs. diffLevels r (ftype diff) = Some ''error'')
               \<or> (failOnRemoval r
                   \<and> (\<exists>diff \<in> set formattedDiffs. ftype diff = VARIABLE_REMOVED))
            then Inl (Error (trace r) unsafeMessage)
            else Inr ())"
proof (cases "diffs = []")
  case True
  with assms(2) have "formattedDiffs = []" by simp
  with True show ?thesis by (simp add: reportDiffs_Nil)
next
  case False
  from reportDiffs_formatted [OF assms False] show ?thesis
    by (simp add: unsafe_iff)
qed

theorem check_fails_iff_witness:
  "snd (reportDiffs (sampleReporter diffLevelsSpec False)
          [removal total, \<lparr>kind = VARIABLE_ADDED, variableName = ''fee'', counterpart = None,
             baseVariable = None, headVariable = None, onChainEvidence = None\<rparr>])
     = Inl (Error ''Error'' unsafeMessage)"
  using check_fails_iff [of "sampleReporter diffLevelsSpec False" "()"
      "[removal total, \<lparr>kind = VARIABLE_ADDED, variableName = ''fee'', counterpart = None,
             baseVariable = None, headVariable = None, onChainEvidence = None\<rparr>]"
      "[\<lparr>ftype = VARIABLE_REMOVED, fmessage = ''total'',
          loc = \<lparr>loc_start = \<lparr>line = 1, column = 0\<rparr>, loc_end = \<lparr>line = 1, column = 0\<rparr>\<rparr>\<rparr>,
        \<lparr>ftype = VARIABLE_ADDED, fmessage = ''fee'',
          loc = \<lparr>loc_start = \<lparr>line = 1, column = 0\<rparr>, loc_end = \<lparr>line = 1, column = 0\<rparr>\<rparr>\<rparr>]"]
  by (simp add: sampleReporter_def plainFormat_def removal_def total_def diffLevelsSpec_def)

section \<open>Diffs are reported before the decision\<close>

text \<open>
  C2. When the source parses and every diff formats, the diff phase first emits one
  annotation per diff that \<^verbatim>\<open>checkLayouts\<close> returned, in order, each through \<^verbatim>\<open>error\<close> or
  \<^verbatim>\<open>warning\<close> according to its level and with its title and span; only then comes the
  decision, whose failure is the one \<^verbatim>\<open>Error\<close> with the unsafe-layout message, a message
  different from those of the two other errors that \<^verbatim>\<open>_run\<close> creates.
\<close>

theorem diffs_reported_before_decision:
  assumes "parseSource r (contractAbs r) = Inr cmpDef"
      and "map (formatDiff r cmpDef) diffs = map Inr formattedDiffs"
      and "diffs \<noteq> []"
  shows "length formattedDiffs = length diffs
       \<and> fst (reportDiffs r diffs) =
           Info ''Parse source code''
             # map (\<lambda>f. (if level (diffLevels r) f = ''error''
                          then ErrorAnnotation else WarningAnnotation)
                         (fmessage f)
                         \<lparr>title = diffTitles r (ftype f), file = path r cmpDef,
                          startLine = line (loc_start (loc f)),
                          endLine = line (loc_end (loc f)),
                          startColumn = column (loc_start (loc f)),
                          endColumn = column (loc_end (loc f))\<rparr>) formattedDiffs
             @ (if unsafe (diffLevels r) (failOnRemoval r) formattedDiffs then [] else [EndGroup])
       \<and> snd (reportDiffs r diffs) =
           (if unsafe (diffLevels r) (failOnRemoval r) formattedDiffs
            then Inl (Error (trace r) unsafeMessage) else Inr ())
       \<and> unsafeMessage \<noteq> ''Failed to upload storage layout report.''
       \<and> unsafeMessage \<noteq> ''No workflow run found with an artifact named '' @ quoted n"
proof -
  have len: "length formattedDiffs = length diffs"
    using assms(2) by (metis length_map)
  have ann: "annotate (diffLevels r) (diffTitles r) (path r cmpDef) =
      (\<lambda>f. (if level (diffLevels r) f = ''error''
                          then ErrorAnnotation else WarningAnnotation)
                         (fmessage f)
                         \<lparr>title = diffTitles r (ftype f), file = path r cmpDef,
                          startLine = line (loc_start (loc f)),
                          endLine = line (loc_end (loc f)),
                          startColumn = column (loc_start (loc f)),
                          endColumn = column (loc_end (loc f))\<rparr>)"
    by (rule ext) (simp add: annotate_def)
  have msg: "unsafeMessage \<noteq> ''Failed to upload storage layout report.''"
    "unsafeMessage \<noteq> ''No workflow run found with an artifact named '' @ quoted n"
    by (simp_all add: unsafeMessage_def)
  from reportDiffs_formatted [OF assms] len ann msg show ?thesis
    by simp
qed

theorem diffs_reported_before_decision_witness:
  "reportDiffs (sampleReporter diffLevelsSpec False)
     [\<lparr>kind = VARIABLE_ADDED, variableName = ''fee'', counterpart = None,
       baseVariable = None, headVariable = None, onChainEvidence = None\<rparr>,
      \<lparr>kind = TYPE_CHANGED, variableName = ''total'', counterpart = Some ''uint128'',
       baseVariable = None, headVariable = Some total, onChainEvidence = None\<rparr>]
   = ([Info ''Parse source code'',
       WarningAnnotation ''fee''
         \<lparr>title = None, file = ''src/Vault.sol'', startLine = 1, endLine = 1,
          startColumn = 0, endColumn = 0\<rparr>,
       ErrorAnnotation ''total''
         \<lparr>title = None, file = ''src/Vault.sol'', startLine = 1, endLine = 1,
          startColumn = 0, endColumn = 0\<rparr>],
      Inl (Error ''Error'' unsafeMessage))"
  using diffs_reported_before_decision [of "sampleReporter diffLevelsSpec False" "()"
     "[\<lparr>kind = VARIABLE_ADDED, variableName = ''fee'', counterpart = None,
       baseVariable = None, headVariable = None, onChainEvidence = None\<rparr>,
      \<lparr>kind = TYPE_CHANGED, variableName = ''total'', counterpart = Some ''uint128'',
       baseVariable = None, headVariable = Some total, onChainEvidence = None\<rparr>]"
     "[\<lparr>ftype = VARIABLE_ADDED, fmessage = ''fee'',
          loc = \<lparr>loc_start = \<lparr>line = 1, column = 0\<rparr>, loc_end = \<lparr>line = 1, column = 0\<rparr>\<rparr>\<rparr>,
       \<lparr>ftype = TYPE_CHANGED, fmessage = ''total'',
          loc = \<lparr>loc_start = \<lparr>line = 1, column = 0\<rparr>, loc_end = \<lparr>line = 1, column = 0\<rparr>\<rparr>\<rparr>]" "''x''"]
  by (simp add: sampleReporter_def plainFormat_def diffLevelsSpec_def level_def unsafe_def
        prod_eq_iff)

section \<open>A kind without a level\<close>

text \<open>
  C8, as the code has it. A diff whose kind has no entry in \<^verbatim>\<open>diffLevels\<close> is annotated
  through \<^verbatim>\<open>error\<close>. Reported alone, it lets the run pass, except when \<^verbatim>\<open>failOnRemoval\<close> is
  set and the kind is \<^verbatim>\<open>VARIABLE_REMOVED\<close>: then the removal clause of the decision throws.
\<close>

theorem unlisted_kind_falls_back_to_error:
  assumes "diffLevels r (ftype f) = None"
      and "parseSource r (contractAbs r) = Inr cmpDef"
      and "formatDiff r cmpDef d = Inr f"
  shows "level (diffLevels r) f = ''error''
       \<and> reportDiffs r [d] =
           (Info ''Parse source code''
              # ErrorAnnotation (fmessage f)
                  \<lparr>title = diffTitles r (ftype f), file = path r cmpDef,
                   startLine = line (loc_start (loc f)),
                   endLine = line (loc_end (loc f)),
                   startColumn = column (loc_start (loc f)),
                   endColumn = column (loc_end (loc f))\<rparr>
              # (if failOnRemoval r \<and> ftype f = VARIABLE_REMOVED then [] else [EndGroup]),
            if failOnRemoval r \<and> ftype f = VARIABLE_REMOVED
            then Inl (Error (trace r) unsafeMessage) else Inr ())"
proof -
  have lev: "level (diffLevels r) f = ''error''"
    using assms(1) by (simp add: level_def)
  have uns: "unsafe (diffLevels r) (failOnRemoval r) [f]
               \<longleftrightarrow> failOnRemoval r \<and> ftype f = VARIABLE_REMOVED"
    using assms(1) by (simp add: unsafe_iff)
  have "map (formatDiff r cmpDef) [d] = map Inr [f]"
    using assms(3) by simp
  from reportDiffs_formatted [OF assms(2) this] lev uns show ?thesis
    by (simp add: annotate_def)
qed

theorem unlisted_kind_falls_back_to_error_witness:
  "reportDiffs (sampleReporter noLevels True)
     [\<lparr>kind = TYPE_CHANGED, variableName = ''total'', counterpart = Some ''uint128'',
       baseVariable = None, headVariable = Some total, onChainEvidence = None\<rparr>]
   = ([Info ''Parse source code'',
       ErrorAnnotation ''total''
         \<lparr>title = None, file = ''src/Vault.sol'', startLine = 1, endLine = 1,
          startColumn = 0, endColumn = 0\<rparr>,
       EndGroup],
      Inr ())"
  using unlisted_kind_falls_back_to_error [of "sampleReporter noLevels True"
     "\<lparr>ftype = TYPE_CHANGED, fmessage = ''total'',
          loc = \<lparr>loc_start = \<lparr>line = 1, column = 0\<rparr>, loc_end = \<lparr>line = 1, column = 0\<rparr>\<rparr>\<rparr>" "()"
     "\<lparr>kind = TYPE_CHANGED, variableName = ''total'', counterpart = Some ''uint128'',
       baseVariable = None, headVariable = Some total, onChainEvidence = None\<rparr>"]
  by (simp add: sampleReporter_def plainFormat_def noLevels_def)

text \<open>
  The exception is met: with an empty table and \<^verbatim>\<open>failOnRemoval\<close> set, a lone
  \<^verbatim>\<open>VARIABLE_REMOVED\<close> has no level and the run throws.
\<close>

theorem unlisted_removal_fails_counterexample:
  "diffLevels (sampleReporter noLevels True) (kind (removal total)) = None
   \<and> snd (reportDiffs (sampleReporter noLevels True) [removal total])
       = Inl (Error ''Error'' unsafeMessage)"
  by (simp add: sampleReporter_def noLevels_def removal_def reportDiffs_def and_then_def
        emit_def throw_def plainFormat_def unsafe_def split: prod.splits sum.splits)

section \<open>The phases of the run\<close>

lemma and_then_Inl: "and_then (evs, Inl e) f = (evs, Inl e)"
  by (simp add: and_then_def)

lemma and_then_Inr: "and_then (evs, Inr x) f = (evs @ fst (f x), snd (f x))"
  by (simp add: and_then_def split: prod.splits)

lemma generateLayout_cases:
  "generateLayout w =
     (case createLayout w (contract w) (workingDirectory w) of
        Inl e \<Rightarrow>
          ([StartGroup (''Generate storage layout of contract '' @ quoted (contract w)
                          @ '' using foundry forge''),
            Info ''Start forge process''], Inl e)
      | Inr c \<Rightarrow>
          (case parseLayout w (Some c) of
             Inl e \<Rightarrow>
               ([StartGroup (''Generate storage layout of contract '' @ quoted (contract w)
                               @ '' using foundry forge''),
                 Info ''Start forge process'', Info ''Parse generated layout''], Inl e)
           | Inr l \<Rightarrow>
               ([StartGroup (''Generate storage layout of contract '' @ quoted (contract w)
                               @ '' using foundry forge''),
                 Info ''Start forge process'', Info ''Parse generated layout'', EndGroup],
                Inr (c, l))))"
  by (simp add: generateLayout_def and_then_def emit_def return_value_def split: sum.splits)

lemma uploadReport_cases:
  "uploadReport w c =
     (case writeFileSync w (localReportPath w) c of
        Some e \<Rightarrow> ([WriteFileSync (localReportPath w) c], Inl e)
      | None \<Rightarrow>
          (case uploadArtifact w (outReport w) (localReportPath w) of
             Inl e \<Rightarrow>
               ([WriteFileSync (localReportPath w) c,
                 StartGroup (''Upload new report from '' @ quoted (localReportPath w)
                               @ '' as artifact named '' @ quoted (outReport w)),
                 UploadArtifact (outReport w) (localReportPath w)], Inl e)
           | Inr None \<Rightarrow>
               ([WriteFileSync (localReportPath w) c,
                 StartGroup (''Upload new report from '' @ quoted (localReportPath w)
                               @ '' as artifact named '' @ quoted (outReport w)),
                 UploadArtifact (outReport w) (localReportPath w)],
                Inl (Error (trace w) ''Failed to upload storage layout report.''))
           | Inr (Some i) \<Rightarrow>
               ([WriteFileSync (localReportPath w) c,
                 StartGroup (''Upload new report from '' @ quoted (localReportPath w)
                               @ '' as artifact named '' @ quoted (outReport w)),
                 UploadArtifact (outReport w) (localReportPath w),
                 Info (''Artifact '' @ decimal i @ '' has been successfully uploaded!''),
                 EndGroup], Inr ())))"
  by (simp add: uploadReport_def and_then_def emit_def throw_def
        split: option.splits sum.splits)

lemma headReport_quiet:
  "ev \<in> set (fst (headReport w)) \<Longrightarrow> \<not> touchesBase ev \<and> \<not> isAnnotation ev
      \<and> ev \<noteq> StartGroup ''Check storage layout''"
  by (auto simp: headReport_def generateLayout_cases uploadReport_cases and_then_def
        return_value_def split: sum.splits option.splits)

lemma headReport_Inl:
  "snd (headReport w) = Inl e \<Longrightarrow>
     createLayout w (contract w) (workingDirectory w) = Inl e
     \<or> (\<exists>c. createLayout w (contract w) (workingDirectory w) = Inr c
            \<and> parseLayout w (Some c) = Inl e)
     \<or> (\<exists>c. createLayout w (contract w) (workingDirectory w) = Inr c
            \<and> writeFileSync w (localReportPath w) c = Some e)
     \<or> uploadArtifact w (outReport w) (localReportPath w) = Inl e
     \<or> (uploadArtifact w (outReport w) (localReportPath w) = Inr None
         \<and> e = Error (trace w) ''Failed to upload storage layout report.'')"
  by (auto simp: headReport_def generateLayout_cases uploadReport_cases and_then_def
        return_value_def split: sum.splits option.splits)

lemma headReport_Inr:
  "snd (headReport w) = Inr l \<longleftrightarrow>
     (\<exists>c i. createLayout w (contract w) (workingDirectory w) = Inr c
            \<and> parseLayout w (Some c) = Inr l
            \<and> writeFileSync w (localReportPath w) c = None
            \<and> uploadArtifact w (outReport w) (localReportPath w) = Inr (Some i))"
  by (auto simp: headReport_def generateLayout_cases uploadReport_cases and_then_def
        return_value_def split: sum.splits option.splits)

lemma headReport_written:
  "snd (headReport w) = Inr l \<Longrightarrow>
     \<exists>c i. createLayout w (contract w) (workingDirectory w) = Inr c
       \<and> uploadArtifact w (outReport w) (localReportPath w) = Inr (Some i) \<and>
     fst (headReport w) =
       [StartGroup (''Generate storage layout of contract '' @ quoted (contract w)
                               @ '' using foundry forge''),
                 Info ''Start forge process'', Info ''Parse generated layout'', EndGroup,
        WriteFileSync (localReportPath w) c,
            StartGroup (''Upload new report from '' @ quoted (localReportPath w)
                          @ '' as artifact named '' @ quoted (outReport w)),
            UploadArtifact (outReport w) (localReportPath w),
            Info (''Artifact '' @ decimal i @ '' has been successfully uploaded!''),
            EndGroup]"
  by (auto simp: headReport_def generateLayout_cases uploadReport_cases and_then_def
        return_value_def split: sum.splits option.splits)

lemma headReport_independent:
  "headReport (w\<lparr>listArtifactsForRepo := pg, downloadArtifact := dl, checkLayouts := cl\<rparr>)
     = headReport w"
  by (simp add: headReport_def generateLayout_def uploadReport_def case_prod_unfold
        cong: option.case_cong)

lemma search_pages_none:
  "\<forall>res \<in> set ps. find (\<lambda>artifact. \<not> expired artifact \<and> artifact_name artifact = n) res = None \<Longrightarrow>
   searchArtifact n d (pages ps)
     = Some (concat (map (\<lambda>res. [ListArtifactsPage, SetTimeout d]) ps), None)"
proof (induction ps)
  case Nil
  show ?case by (subst searchArtifact.simps) simp
next
  case (Cons res ps)
  then show ?case by (subst searchArtifact.simps) simp
qed

lemma search_pages_returns:
  "\<exists>evs found. searchArtifact n d (pages ps) = Some (evs, found)"
proof (induction ps)
  case Nil
  show ?case by (subst searchArtifact.simps) simp
next
  case (Cons res ps)
  then show ?case by (subst searchArtifact.simps) (auto split: option.splits)
qed

lemma search_quiet:
  assumes "searchArtifact n d pg = Some s"
  shows "\<forall>ev \<in> set (fst s). \<not> isAnnotation ev \<and> ev \<noteq> StartGroup ''Check storage layout''"
proof (rule searchArtifact.raw_induct
    [where P = "\<lambda>n d pg s. \<forall>ev \<in> set (fst s). \<not> isAnnotation ev
                  \<and> ev \<noteq> StartGroup ''Check storage layout''", OF _ assms])
  fix search :: "string \<Rightarrow> int \<Rightarrow> artifact list pager \<Rightarrow> (event list \<times> artifact option) option"
  fix n d pg s
  assume IH: "\<And>n d pg s. search n d pg = Some s \<Longrightarrow>
           \<forall>ev \<in> set (fst s). \<not> isAnnotation ev \<and> ev \<noteq> StartGroup ''Check storage layout''"
    and body: "(case pg of
        Exhausted \<Rightarrow> Some ([], None)
      | Page res rest \<Rightarrow>
          (case find (\<lambda>artifact. \<not> expired artifact \<and> artifact_name artifact = n) res of
             None \<Rightarrow>
               Option.bind (search n d rest)
                 (\<lambda>(evs, found). Some (ListArtifactsPage # SetTimeout d # evs, found))
           | Some artifact \<Rightarrow>
               Some ([ListArtifactsPage, Info (foundMessage n artifact)], Some artifact))) = Some s"
  show "\<forall>ev \<in> set (fst s). \<not> isAnnotation ev \<and> ev \<noteq> StartGroup ''Check storage layout''"
  proof (cases pg)
    case Exhausted
    with body show ?thesis by auto
  next
    case (Page res rest)
    show ?thesis
    proof (cases "find (\<lambda>artifact. \<not> expired artifact \<and> artifact_name artifact = n) res")
      case None
      with body Page obtain t where t: "search n d rest = Some t"
        and s: "s = (ListArtifactsPage # SetTimeout d # fst t, snd t)"
        by (auto simp: bind_eq_Some_conv)
      from IH [OF t] s show ?thesis by auto
    next
      case (Some a)
      with body Page show ?thesis by auto
    qed
  qed
qed

lemma search_endless:
  assumes "find (\<lambda>artifact. \<not> expired artifact \<and> artifact_name artifact = n) res = None"
  shows "searchArtifact n d (endless res) = None"
proof (rule ccontr)
  assume "searchArtifact n d (endless res) \<noteq> None"
  then obtain s where s: "searchArtifact n d (endless res) = Some s" by auto
  have "\<not> (n = n \<and> endless res = endless res)"
  proof (rule searchArtifact.raw_induct
      [where P = "\<lambda>n' d' pg s'. \<not> (n' = n \<and> pg = endless res)", OF _ s])
    fix search :: "string \<Rightarrow> int \<Rightarrow> artifact list pager \<Rightarrow> (event list \<times> artifact option) option"
    fix n' d' pg s'
    assume IH: "\<And>n' d' pg s'. search n' d' pg = Some s' \<Longrightarrow> \<not> (n' = n \<and> pg = endless res)"
      and body: "(case pg of
        Exhausted \<Rightarrow> Some ([], None)
      | Page res rest \<Rightarrow>
          (case find (\<lambda>artifact. \<not> expired artifact \<and> artifact_name artifact = n') res of
             None \<Rightarrow>
               Option.bind (search n' d' rest)
                 (\<lambda>(evs, found). Some (ListArtifactsPage # SetTimeout d' # evs, found))
           | Some artifact \<Rightarrow>
               Some ([ListArtifactsPage, Info (foundMessage n' artifact)], Some artifact))) = Some s'"
    show "\<not> (n' = n \<and> pg = endless res)"
    proof
      assume eq: "n' = n \<and> pg = endless res"
      then have pg: "pg = Page res (endless res)" by (metis endless.code)
      from body assms eq obtain t where "search n d' (endless res) = Some t"
        by (auto simp: pg bind_eq_Some_conv)
      from IH [OF this] show False by simp
    qed
  qed
  then show False by simp
qed

lemma readEntries_last:
  "entries \<noteq> [] \<Longrightarrow>
   readEntries s entries =
     (map (\<lambda>e. Info (''Loading storage layout report from '' @ quoted (entryName e))) entries,
      Some (readAsText (last entries)))"
proof (induction entries arbitrary: s)
  case Nil
  then show ?case by simp
next
  case (Cons e es)
  show ?case
  proof (cases "es = []")
    case True
    then show ?thesis by simp
  next
    case False
    from Cons.IH [OF False] False show ?thesis by simp
  qed
qed

lemma readEntries_events:
  "fst (readEntries s entries) =
     map (\<lambda>e. Info (''Loading storage layout report from '' @ quoted (entryName e))) entries"
  by (induction entries arbitrary: s) (simp_all add: case_prod_unfold)

lemma downloadReport_quiet:
  "ev \<in> set (fst (downloadReport w found)) \<Longrightarrow>
     \<not> isAnnotation ev \<and> ev \<noteq> StartGroup ''Check storage layout''"
proof (cases "case found of None \<Rightarrow> None
            | Some a \<Rightarrow> if artifact_id a \<noteq> 0 then Some (artifact_id a) else None")
  case None
  assume "ev \<in> set (fst (downloadReport w found))"
  with None show ?thesis by (simp add: downloadReport_def throw_def)
next
  case (Some i)
  assume ev: "ev \<in> set (fst (downloadReport w found))"
  have "fst (downloadReport w found) =
          [StartGroup (''Downloading artifact '' @ quoted (baseReport w)
                              @ '' of repository '' @ quoted (repository w)
                              @ '' with ID '' @ quoted (decimal i)),
           DownloadArtifact i] @ fst (readEntries None (downloadArtifact w i)) @ [EndGroup]"
    using Some by (simp add: downloadReport_def split: prod.splits)
  with ev show ?thesis
    by (auto simp: readEntries_events)
qed

lemma compareLayouts_cases:
  "compareLayouts w l s =
     (case parseLayout w s of
        Inl e \<Rightarrow> ([Info ''Mapping reference storage layout report''], Inl e)
      | Inr b \<Rightarrow>
          (Info ''Mapping reference storage layout report'' # EndGroup
             # StartGroup ''Check storage layout''
             # fst (reportDiffs w (checkLayouts w b l
                      \<lparr>optAddress = address w, optProvider = provider w,
                       checkRemovals = failOnRemoval w\<rparr>)),
           snd (reportDiffs w (checkLayouts w b l
                      \<lparr>optAddress = address w, optProvider = provider w,
                       checkRemovals = failOnRemoval w\<rparr>))))"
  by (simp add: compareLayouts_def and_then_def emit_def split: sum.splits prod.splits)

lemma baseComparison_before_check:
  assumes "StartGroup ''Check storage layout'' \<notin> set (fst (baseComparison w l s))"
      and "searchArtifact n d pg = Some s"
  shows "\<forall>ev \<in> set (fst (baseComparison w l s)). \<not> isAnnotation ev"
proof -
  obtain devs dr where dl: "downloadReport w (snd s) = (devs, dr)"
    by (cases "downloadReport w (snd s)")
  have dq: "\<forall>ev \<in> set devs. \<not> isAnnotation ev"
    using downloadReport_quiet [of _ w "snd s"] dl by simp
  have sq: "\<forall>ev \<in> set (fst s). \<not> isAnnotation ev"
    using search_quiet [OF assms(2)] by simp
  show ?thesis
  proof (cases dr)
    case (Inl e)
    with dl sq dq show ?thesis
      by (auto simp: baseComparison_def and_then_def)
  next
    case (Inr c)
    show ?thesis
    proof (cases "parseLayout w c")
      case (Inl e)
      with Inr dl sq dq show ?thesis
        by (auto simp: baseComparison_def and_then_def compareLayouts_cases)
    next
      case b: (Inr b)
      with Inr dl assms(1) have False
        by (simp add: baseComparison_def and_then_def compareLayouts_cases)
      then show ?thesis ..
    qed
  qed
qed

lemma run_inner_before_check:
  assumes "run_inner w = Some (evs, r)"
      and "StartGroup ''Check storage layout'' \<notin> set evs"
  shows "\<forall>ev \<in> set evs. \<not> isAnnotation ev"
proof -
  obtain hevs hr where hd: "headReport w = (hevs, hr)" by (cases "headReport w")
  have hq: "\<forall>ev \<in> set hevs. \<not> isAnnotation ev"
    using headReport_quiet [of _ w] hd by simp
  show ?thesis
  proof (cases hr)
    case (Inl e)
    with assms(1) hd hq show ?thesis by (simp add: run_inner_def)
  next
    case (Inr l)
    show ?thesis
    proof (cases "eventName w \<noteq> ''pull_request''")
      case True
      with assms(1) hd hq Inr show ?thesis by (simp add: run_inner_def)
    next
      case False
      with assms(1) hd Inr obtain s where
        s: "searchArtifact (baseReport w) (retryDelay w) (listArtifactsForRepo w) = Some s"
        and evs: "evs = hevs @ fst (baseComparison w l s)"
        by (auto simp: run_inner_def and_then_Inr)
      from assms(2) evs have "StartGroup ''Check storage layout'' \<notin> set (fst (baseComparison w l s))"
        by simp
      from baseComparison_before_check [OF this s] hq evs show ?thesis by auto
    qed
  qed
qed

lemma run_inner_other_event:
  "eventName w \<noteq> ''pull_request'' \<Longrightarrow>
   run_inner w = Some (fst (headReport w), map_sum id (\<lambda>l. ()) (snd (headReport w)))"
  by (cases "headReport w") (auto simp: run_inner_def split: sum.splits)

section \<open>A run outside a pull request\<close>

text \<open>
  C9, as the code has it. When the event is not a pull request, \<^verbatim>\<open>_run\<close> returns after the
  upload: it touches no page of the artifact listing, waits for nothing, downloads nothing,
  starts no check and emits no annotation. When it returns normally it has written the
  generated content to the local report and uploaded it; when it throws, the error comes
  from \<^verbatim>\<open>createLayout\<close>, from \<^verbatim>\<open>parseLayout\<close>, from the write of the report, from the upload or
  from the missing upload id. The artifact listing, the archive and \<^verbatim>\<open>checkLayouts\<close> have no
  influence on the run.
\<close>

theorem non_pull_request_run:
  assumes "eventName w \<noteq> ''pull_request''"
  shows "\<exists>evs r. run_inner w = Some (evs, r)
     \<and> (\<forall>ev \<in> set evs. \<not> touchesBase ev \<and> \<not> isAnnotation ev
            \<and> ev \<noteq> StartGroup ''Check storage layout'')
     \<and> (case r of
           Inr u \<Rightarrow>
             (\<exists>c l i. createLayout w (contract w) (workingDirectory w) = Inr c
                \<and> parseLayout w (Some c) = Inr l
                \<and> writeFileSync w (localReportPath w) c = None
                \<and> uploadArtifact w (outReport w) (localReportPath w) = Inr (Some i)
                \<and> evs = [StartGroup (''Generate storage layout of contract ''
                                        @ quoted (contract w) @ '' using foundry forge''),
                          Info ''Start forge process'', Info ''Parse generated layout'',
                          EndGroup,
                          WriteFileSync (localReportPath w) c,
                          StartGroup (''Upload new report from '' @ quoted (localReportPath w)
                                        @ '' as artifact named '' @ quoted (outReport w)),
                          UploadArtifact (outReport w) (localReportPath w),
                          Info (''Artifact '' @ decimal i @ '' has been successfully uploaded!''),
                          EndGroup])
         | Inl e \<Rightarrow>
             createLayout w (contract w) (workingDirectory w) = Inl e
             \<or> (\<exists>c. createLayout w (contract w) (workingDirectory w) = Inr c
                    \<and> parseLayout w (Some c) = Inl e)
             \<or> (\<exists>c. createLayout w (contract w) (workingDirectory w) = Inr c
                    \<and> writeFileSync w (localReportPath w) c = Some e)
             \<or> uploadArtifact w (outReport w) (localReportPath w) = Inl e
             \<or> (uploadArtifact w (outReport w) (localReportPath w) = Inr None
                 \<and> e = Error (trace w) ''Failed to upload storage layout report.''))
     \<and> (\<forall>pg dl cl.
           run_inner (w\<lparr>listArtifactsForRepo := pg, downloadArtifact := dl,
                        checkLayouts := cl\<rparr>) = run_inner w)"
proof -
  obtain evs r0 where hr: "headReport w = (evs, r0)" by (cases "headReport w")
  define r where "r = map_sum id (\<lambda>l. ()) r0"
  have run: "run_inner w = Some (evs, r)"
    using run_inner_other_event [OF assms] hr by (simp add: r_def)
  have quiet: "\<forall>ev \<in> set evs. \<not> touchesBase ev \<and> \<not> isAnnotation ev
            \<and> ev \<noteq> StartGroup ''Check storage layout''"
    using headReport_quiet [of _ w] hr by simp
  have outcome: "(case r of
           Inr u \<Rightarrow>
             (\<exists>c l i. createLayout w (contract w) (workingDirectory w) = Inr c
                \<and> parseLayout w (Some c) = Inr l
                \<and> writeFileSync w (localReportPath w) c = None
                \<and> uploadArtifact w (outReport w) (localReportPath w) = Inr (Some i)
                \<and> evs = [StartGroup (''Generate storage layout of contract ''
                                        @ quoted (contract w) @ '' using foundry forge''),
                          Info ''Start forge process'', Info ''Parse generated layout'',
                          EndGroup,
                          WriteFileSync (localReportPath w) c,
                          StartGroup (''Upload new report from '' @ quoted (localReportPath w)
                                        @ '' as artifact named '' @ quoted (outReport w)),
                          UploadArtifact (outReport w) (localReportPath w),
                          Info (''Artifact '' @ decimal i @ '' has been successfully uploaded!''),
                          EndGroup])
         | Inl e \<Rightarrow>
             createLayout w (contract w) (workingDirectory w) = Inl e
             \<or> (\<exists>c. createLayout w (contract w) (workingDirectory w) = Inr c
                    \<and> parseLayout w (Some c) = Inl e)
             \<or> (\<exists>c. createLayout w (contract w) (workingDirectory w) = Inr c
                    \<and> writeFileSync w (localReportPath w) c = Some e)
             \<or> uploadArtifact w (outReport w) (localReportPath w) = Inl e
             \<or> (uploadArtifact w (outReport w) (localReportPath w) = Inr None
                 \<and> e = Error (trace w) ''Failed to upload storage layout report.''))"
  proof (cases r0)
    case (Inl e)
    with headReport_Inl [of w e] hr show ?thesis by (simp add: r_def)
  next
    case (Inr l)
    with headReport_written [of w l] headReport_Inr [of w l] hr show ?thesis
      by (auto simp: r_def)
  qed
  have indep: "run_inner (w\<lparr>listArtifactsForRepo := pg, downloadArtifact := dl,
                        checkLayouts := cl\<rparr>) = run_inner w" for pg dl cl
    using assms
    by (simp add: run_inner_other_event headReport_independent)
  from run quiet outcome indep show ?thesis by blast
qed

theorem non_pull_request_run_witness:
  "eventName (sampleWorld ''push'' True ''owner'' (Some 12) (pages [[baseArtifact]]) []) \<noteq> ''pull_request''
   \<and> (\<exists>evs r. run_inner (sampleWorld ''push'' True ''owner'' (Some 12) (pages [[baseArtifact]]) [])
                 = Some (evs, r)
          \<and> \<not> list_ex touchesBase evs \<and> \<not> list_ex isAnnotation evs)"
proof -
  have ev: "eventName (sampleWorld ''push'' True ''owner'' (Some 12) (pages [[baseArtifact]]) [])
              \<noteq> ''pull_request''"
    by (simp add: sampleWorld_def)
  from non_pull_request_run [OF ev] ev show ?thesis
    by (auto simp: list_ex_iff)
qed

text \<open>
  A push on a file system that refuses the write: the layout is generated and parsed, the
  upload would answer an id, and the run still throws, with the error of
  \<^verbatim>\<open>fs.writeFileSync\<close>.
\<close>

theorem write_failure_counterexample:
  "eventName readOnlyWorld \<noteq> ''pull_request''
   \<and> createLayout readOnlyWorld (contract readOnlyWorld) (workingDirectory readOnlyWorld)
       = Inr ''owner''
   \<and> parseLayout readOnlyWorld (Some ''owner'') = Inr [owner]
   \<and> uploadArtifact readOnlyWorld (outReport readOnlyWorld) (localReportPath readOnlyWorld)
       = Inr (Some 12)
   \<and> run_inner readOnlyWorld
       = Some ([StartGroup (''Generate storage layout of contract '' @ quoted ''src/Vault.sol''
                              @ '' using foundry forge''),
                Info ''Start forge process'', Info ''Parse generated layout'', EndGroup,
                WriteFileSync ''/work/dev.Vault.json'' ''owner''],
               Inl readOnly)"
  by (simp add: readOnlyWorld_def refuseWrite_def sampleWorld_def sampleParse_def
        run_inner_def headReport_def generateLayout_cases uploadReport_cases and_then_def
        return_value_def)

section \<open>Errors before the diff\<close>

lemma run_exits:
  assumes "run w = Some evs"
  shows "evs \<noteq> [] \<and> last evs = ProcessExit"
proof -
  from assms obtain evs' r where inner: "run_inner w = Some (evs', r)"
    by (auto simp: run_def)
  show ?thesis
  proof (cases r)
    case (Inl e)
    with assms inner show ?thesis by (auto simp: run_def)
  next
    case (Inr u)
    with assms inner show ?thesis by (auto simp: run_def)
  qed
qed

text \<open>
  C6. When \<^verbatim>\<open>_run\<close> throws before the check of the layouts has started, no annotation has
  been emitted, and \<^verbatim>\<open>run\<close> hands the thrown value to \<^verbatim>\<open>setFailed\<close>, its stack to \<^verbatim>\<open>debug\<close>, and
  exits the process. A throw of \<^verbatim>\<open>parseLayout\<close> is such a case, for the head layout (the run
  stops in the first group) and for the base layout (the comparison stops before
  \<^verbatim>\<open>checkLayouts\<close>).
\<close>

theorem parse_error_aborts:
  assumes "run_inner w = Some (evs, Inl e)"
      and "StartGroup ''Check storage layout'' \<notin> set evs"
  shows "(\<forall>ev \<in> set evs. \<not> isAnnotation ev)
       \<and> run w = Some (evs @ [SetFailed e]
                          @ (if stack e \<noteq> [] then [Debug (stack e)] else [])
                          @ [ProcessExit])
       \<and> (\<forall>c e'. createLayout w (contract w) (workingDirectory w) = Inr c
              \<longrightarrow> parseLayout w (Some c) = Inl e'
              \<longrightarrow> run_inner w =
                    Some ([StartGroup (''Generate storage layout of contract ''
                                         @ quoted (contract w) @ '' using foundry forge''),
                           Info ''Start forge process'', Info ''Parse generated layout''],
                          Inl e'))
       \<and> (\<forall>cmpLayout srcContent e'. parseLayout w srcContent = Inl e'
              \<longrightarrow> compareLayouts w cmpLayout srcContent
                    = ([Info ''Mapping reference storage layout report''], Inl e'))"
proof -
  have quiet: "\<forall>ev \<in> set evs. \<not> isAnnotation ev"
    using run_inner_before_check [OF assms] .
  have failed: "run w = Some (evs @ [SetFailed e]
                          @ (if stack e \<noteq> [] then [Debug (stack e)] else [])
                          @ [ProcessExit])"
    using assms(1) by (simp add: run_def)
  have head: "run_inner w =
                    Some ([StartGroup (''Generate storage layout of contract ''
                                         @ quoted (contract w) @ '' using foundry forge''),
                           Info ''Start forge process'', Info ''Parse generated layout''],
                          Inl e')"
    if "createLayout w (contract w) (workingDirectory w) = Inr c"
      and "parseLayout w (Some c) = Inl e'" for c e'
    using that
    by (simp add: run_inner_def headReport_def generateLayout_cases and_then_Inl)
  have base: "compareLayouts w cmpLayout srcContent
                    = ([Info ''Mapping reference storage layout report''], Inl e')"
    if "parseLayout w srcContent = Inl e'" for cmpLayout srcContent e'
    using that by (simp add: compareLayouts_cases)
  from quiet failed head base show ?thesis by blast
qed

theorem parse_error_aborts_witness:
  "run (sampleWorld ''pull_request'' True ''garbage'' (Some 12) (pages [[baseArtifact]]) [])
     = Some [StartGroup (''Generate storage layout of contract '' @ quoted ''src/Vault.sol''
                           @ '' using foundry forge''),
             Info ''Start forge process'', Info ''Parse generated layout'',
             SetFailed malformed, Debug ''MalformedLayoutError at parseLayout'', ProcessExit]
   \<and> compareLayouts
         (sampleWorld ''pull_request'' True ''garbage'' (Some 12) (pages [[baseArtifact]]) [])
         [owner] (Some ''garbage'')
       = ([Info ''Mapping reference storage layout report''], Inl malformed)"
proof -
  have thrown:
    "run_inner (sampleWorld ''pull_request'' True ''garbage'' (Some 12) (pages [[baseArtifact]]) [])
       = Some ([StartGroup (''Generate storage layout of contract '' @ quoted ''src/Vault.sol''
                              @ '' using foundry forge''),
                Info ''Start forge process'', Info ''Parse generated layout''],
               Inl malformed)"
    by (simp add: run_inner_def headReport_def generateLayout_cases and_then_Inl
          sampleWorld_def sampleParse_def)
  have early:
    "StartGroup ''Check storage layout''
       \<notin> set [StartGroup (''Generate storage layout of contract '' @ quoted ''src/Vault.sol''
                             @ '' using foundry forge''),
                Info ''Start forge process'', Info ''Parse generated layout'']"
    by simp
  have base:
    "parseLayout (sampleWorld ''pull_request'' True ''garbage'' (Some 12) (pages [[baseArtifact]]) [])
       (Some ''garbage'') = Inl malformed"
    by (simp add: sampleWorld_def sampleParse_def)
  from parse_error_aborts [OF thrown early] base show ?thesis
    by (simp add: malformed_def)
qed

section \<open>The archive of the base report\<close>

text \<open>
  C10. When the downloaded archive has more than one entry, every entry is announced and
  read, and the content handed on is the text of the last entry alone: the comparison that
  follows is the comparison with that text.
\<close>

theorem last_entry_is_base:
  assumes "downloadArtifact w (artifact_id a) = entries"
      and "1 < length entries"
      and "artifact_id a \<noteq> 0"
  shows "downloadReport w (Some a) =
           ([StartGroup (''Downloading artifact '' @ quoted (baseReport w)
                           @ '' of repository '' @ quoted (repository w)
                           @ '' with ID '' @ quoted (decimal (artifact_id a))),
             DownloadArtifact (artifact_id a)]
            @ map (\<lambda>e. Info (''Loading storage layout report from '' @ quoted (entryName e)))
                entries
            @ [EndGroup],
            Inr (Some (readAsText (last entries))))
       \<and> snd (and_then (downloadReport w (Some a)) (compareLayouts w cmpLayout))
           = snd (compareLayouts w cmpLayout (Some (readAsText (last entries))))"
proof -
  from assms(2) have ne: "entries \<noteq> []" by auto
  have dl: "downloadReport w (Some a) =
           ([StartGroup (''Downloading artifact '' @ quoted (baseReport w)
                           @ '' of repository '' @ quoted (repository w)
                           @ '' with ID '' @ quoted (decimal (artifact_id a))),
             DownloadArtifact (artifact_id a)]
            @ map (\<lambda>e. Info (''Loading storage layout report from '' @ quoted (entryName e)))
                entries
            @ [EndGroup],
            Inr (Some (readAsText (last entries))))"
    using assms(1,3) readEntries_last [OF ne, of None]
    by (simp add: downloadReport_def)
  then show ?thesis by (simp add: and_then_Inr)
qed

theorem last_entry_is_base_witness:
  "snd (downloadReport
          (sampleWorld ''pull_request'' True ''owner'' (Some 12) (pages [[baseArtifact]])
             [\<lparr>entryName = ''old.json'', readAsText = ''admin''\<rparr>,
              \<lparr>entryName = ''main.Vault.json'', readAsText = ''owner total''\<rparr>])
          (Some baseArtifact))
     = Inr (Some ''owner total'')"
  using last_entry_is_base
    [of "sampleWorld ''pull_request'' True ''owner'' (Some 12) (pages [[baseArtifact]])
             [\<lparr>entryName = ''old.json'', readAsText = ''admin''\<rparr>,
              \<lparr>entryName = ''main.Vault.json'', readAsText = ''owner total''\<rparr>]"
        baseArtifact
        "[\<lparr>entryName = ''old.json'', readAsText = ''admin''\<rparr>,
          \<lparr>entryName = ''main.Vault.json'', readAsText = ''owner total''\<rparr>]"]
  by (simp add: sampleWorld_def baseArtifact_def)

section \<open>The search for the base artifact\<close>

text \<open>
  C7, as the code has it. The loop has no counter and no clock of its own, but it takes
  each page of the listing once. When no page holds a live artifact of the base report
  name and the listing ends after some pages, the loop ends after one wait per page, and
  \<^verbatim>\<open>_run\<close> throws that no workflow run was found. The loop runs for ever only on a listing
  that never ends.
\<close>

theorem search_ends_with_listing:
  assumes "\<forall>res \<in> set ps.
             find (\<lambda>artifact. \<not> expired artifact \<and> artifact_name artifact = baseReport w) res
               = None"
      and "listArtifactsForRepo w = pages ps"
      and "eventName w = ''pull_request''"
      and "snd (headReport w) = Inr cmpLayout"
  shows "searchArtifact (baseReport w) (retryDelay w) (listArtifactsForRepo w)
           = Some (concat (map (\<lambda>res. [ListArtifactsPage, SetTimeout (retryDelay w)]) ps), None)
       \<and> (\<exists>evs. run_inner w =
             Some (evs, Inl (Error (trace w)
                     (''No workflow run found with an artifact named ''
                        @ quoted (baseReport w)))))
       \<and> (\<forall>res d. find (\<lambda>artifact. \<not> expired artifact
                                  \<and> artifact_name artifact = baseReport w) res = None
              \<longrightarrow> searchArtifact (baseReport w) d (endless res) = None)"
proof -
  have s: "searchArtifact (baseReport w) (retryDelay w) (listArtifactsForRepo w)
           = Some (concat (map (\<lambda>res. [ListArtifactsPage, SetTimeout (retryDelay w)]) ps), None)"
    using search_pages_none [OF assms(1)] assms(2) by simp
  obtain hevs where hd: "headReport w = (hevs, Inr cmpLayout)"
    using assms(4) by (cases "headReport w") simp
  have "\<exists>evs. run_inner w =
             Some (evs, Inl (Error (trace w)
                     (''No workflow run found with an artifact named ''
                        @ quoted (baseReport w))))"
    using s hd assms(3)
    by (simp add: run_inner_def baseComparison_def downloadReport_def and_then_def throw_def)
  with s search_endless show ?thesis by blast
qed

theorem search_ends_with_listing_witness:
  "(\<exists>evs. run_inner (sampleWorld ''pull_request'' True ''owner'' (Some 12)
                      (pages [[otherArtifact], []]) [])
     = Some (evs, Inl (Error ''Error''
               (''No workflow run found with an artifact named '' @ quoted ''main.Vault.json''))))
   \<and> searchArtifact ''main.Vault.json'' 5000 (pages [[otherArtifact], []])
       = Some ([ListArtifactsPage, SetTimeout 5000, ListArtifactsPage, SetTimeout 5000], None)
   \<and> searchArtifact ''main.Vault.json'' 5000 (endless [otherArtifact]) = None"
proof -
  have none: "\<forall>res \<in> set [[otherArtifact], []].
      find (\<lambda>artifact. \<not> expired artifact \<and> artifact_name artifact
              = baseReport (sampleWorld ''pull_request'' True ''owner'' (Some 12)
                      (pages [[otherArtifact], []]) [])) res = None"
    by (simp add: sampleWorld_def otherArtifact_def)
  have listing: "listArtifactsForRepo (sampleWorld ''pull_request'' True ''owner'' (Some 12)
                      (pages [[otherArtifact], []]) []) = pages [[otherArtifact], []]"
    by (simp add: sampleWorld_def)
  have event: "eventName (sampleWorld ''pull_request'' True ''owner'' (Some 12)
                      (pages [[otherArtifact], []]) []) = ''pull_request''"
    by (simp add: sampleWorld_def)
  have head: "snd (headReport (sampleWorld ''pull_request'' True ''owner'' (Some 12)
                      (pages [[otherArtifact], []]) [])) = Inr [owner]"
    by (simp add: headReport_def generateLayout_cases uploadReport_cases and_then_Inr
          return_value_def sampleWorld_def sampleParse_def)
  have other: "find (\<lambda>artifact. \<not> expired artifact \<and> artifact_name artifact
              = baseReport (sampleWorld ''pull_request'' True ''owner'' (Some 12)
                      (pages [[otherArtifact], []]) [])) [otherArtifact] = None"
    by (simp add: sampleWorld_def otherArtifact_def)
  from search_ends_with_listing [OF none listing event head] other show ?thesis
    by (simp add: sampleWorld_def)
qed

text \<open>
  A listing of one page whose only artifact has another name: no live artifact of the base
  report name exists, and the loop ends after one wait.
\<close>

theorem search_terminates_counterexample:
  "\<not> expired otherArtifact
   \<and> artifact_name otherArtifact \<noteq> ''main.Vault.json''
   \<and> searchArtifact ''main.Vault.json'' 5000 (pages [[otherArtifact]])
       = Some ([ListArtifactsPage, SetTimeout 5000], None)"
proof -
  have "\<forall>res \<in> set [[otherArtifact]].
      find (\<lambda>artifact. \<not> expired artifact \<and> artifact_name artifact = ''main.Vault.json'') res
        = None"
    by (simp add: otherArtifact_def)
  from search_pages_none [OF this, of 5000] show ?thesis
    by (simp add: otherArtifact_def)
qed

section \<open>Properties of the diff engine\<close>

lemma lookupName_self:
  "distinct (map name layout) \<Longrightarrow> b \<in> set layout \<Longrightarrow> lookupName layout (name b) = Some b"
  unfolding lookupName_def
  by (induction layout) (auto simp: image_iff)

lemma lookupName_Some: "lookupName layout n = Some b \<Longrightarrow> b \<in> set layout \<and> name b = n"
  unfolding lookupName_def
  by (induction layout) (auto split: if_splits)

lemma lookupName_None: "lookupName layout n = None \<longleftrightarrow> n \<notin> name ` set layout"
  unfolding lookupName_def
  by (auto simp: find_None_iff image_iff)

lemma primaryDiff_same: "primaryDiff h h = []"
  by (simp add: primaryDiff_def)

lemma align_identity:
  "\<forall>h \<in> set hs. lookupName layout (name h) = Some h \<Longrightarrow> align layout unmatched hs = ([], unmatched)"
  by (induction hs) (simp_all add: primaryDiff_same)

lemma unmatched_identity:
  "distinct (map name layout) \<Longrightarrow> unmatchedByName layout layout = []"
  unfolding unmatchedByName_def
  by (auto simp: filter_empty_conv lookupName_self)

lemma checkLayoutsSpec_identity:
  "distinct (map name layout) \<Longrightarrow> checkLayoutsSpec layout layout opts = ([], [])"
  by (simp add: checkLayoutsSpec_def unmatched_identity align_identity lookupName_self
        split: option.splits)

lemma primaryDiff_kind:
  "d \<in> set (primaryDiff b h) \<Longrightarrow> kind d \<noteq> VARIABLE_REMOVED \<and> onChainEvidence d = None"
  by (auto simp: primaryDiff_def split: if_splits)

lemma align_kinds:
  "d \<in> set (fst (align baseLayout unmatched hs)) \<Longrightarrow>
     kind d \<noteq> VARIABLE_REMOVED \<and> onChainEvidence d = None"
proof (induction hs arbitrary: unmatched)
  case Nil
  then show ?case by simp
next
  case (Cons h hs)
  then show ?case
    by (auto split: option.splits prod.splits dest: primaryDiff_kind) (metis fst_conv)+
qed

lemma unmatched_keeps:
  assumes "v \<in> set baseLayout" and "name v \<notin> name ` set headLayout"
  shows "v \<in> set (unmatchedByName baseLayout headLayout)"
  using assms unfolding unmatchedByName_def
  by (auto dest: lookupName_Some)

lemma align_keeps:
  "v \<in> set unmatched \<Longrightarrow>
   \<forall>h \<in> set hs. lookupName baseLayout (name h) = None \<longrightarrow> \<not> samePlace v h \<Longrightarrow>
   v \<in> set (snd (align baseLayout unmatched hs))"
proof (induction hs arbitrary: unmatched)
  case Nil
  then show ?case by simp
next
  case (Cons h hs)
  show ?case
  proof (cases "lookupName baseLayout (name h)")
    case (Some b)
    with Cons show ?thesis by (simp split: prod.splits) (metis snd_conv)
  next
    case None
    show ?thesis
    proof (cases "find (\<lambda>b. samePlace b h) unmatched")
      case inner: None
      with None Cons show ?thesis by (simp split: prod.splits) (metis snd_conv)
    next
      case (Some b)
      then have "samePlace b h" by (auto simp: find_Some_iff)
      with None Cons.prems(2) have "b \<noteq> v" by auto
      with Cons.prems(1) have "v \<in> set (remove1 b unmatched)" by simp
      from Cons.IH [OF this] Cons.prems(2) None Some show ?thesis
        by (simp split: prod.splits) (metis snd_conv)
    qed
  qed
qed

lemma annotateRemoval_removal:
  "kind (annotateRemoval (removal b) addr read) = VARIABLE_REMOVED
   \<and> variableName (annotateRemoval (removal b) addr read) = name b
   \<and> baseVariable (annotateRemoval (removal b) addr read) = Some b"
  by (simp add: annotateRemoval_def removal_def)

lemma checkLayoutsSpec_unchecked:
  assumes "\<not> checkRemovals opts" and "d \<in> set (snd (checkLayoutsSpec baseLayout headLayout opts))"
  shows "kind d \<noteq> VARIABLE_REMOVED"
proof -
  obtain diffs removed where al:
    "align baseLayout (unmatchedByName baseLayout headLayout) headLayout = (diffs, removed)"
    by (cases "align baseLayout (unmatchedByName baseLayout headLayout) headLayout")
  with assms have "d \<in> set diffs"
    by (auto simp: checkLayoutsSpec_def split: option.splits if_splits)
  with al align_kinds [of d baseLayout "unmatchedByName baseLayout headLayout" headLayout]
  show ?thesis by simp
qed

lemma align_rest_subset: "set (snd (align baseLayout unmatched hs)) \<subseteq> set unmatched"
proof (induction hs arbitrary: unmatched)
  case Nil
  then show ?case by simp
next
  case (Cons h hs)
  show ?case
  proof (cases "lookupName baseLayout (name h)")
    case (Some b)
    with Cons.IH [of unmatched] show ?thesis by (simp add: case_prod_unfold)
  next
    case None
    show ?thesis
    proof (cases "find (\<lambda>b. samePlace b h) unmatched")
      case inner: None
      with None Cons.IH [of unmatched] show ?thesis by (simp add: case_prod_unfold)
    next
      case (Some b)
      have "set (remove1 b unmatched) \<subseteq> set unmatched" by (rule set_remove1_subset)
      with None Some Cons.IH [of "remove1 b unmatched"] show ?thesis
        by (auto simp: case_prod_unfold)
    qed
  qed
qed

lemma stillUnmatched_in_base:
  "v \<in> set (stillUnmatched baseLayout headLayout) \<Longrightarrow> v \<in> set baseLayout"
  using align_rest_subset [of baseLayout "unmatchedByName baseLayout headLayout" headLayout]
  by (auto simp: stillUnmatched_def unmatchedByName_def)

lemma stillUnmatched_when_not_renamed:
  assumes "v \<in> set baseLayout" and "name v \<notin> name ` set headLayout"
      and "\<forall>h \<in> set headLayout. name h \<notin> name ` set baseLayout \<longrightarrow> \<not> samePlace v h"
  shows "v \<in> set (stillUnmatched baseLayout headLayout)"
  unfolding stillUnmatched_def
  using unmatched_keeps [OF assms(1,2)] assms(3)
  by (intro align_keeps) (auto simp: lookupName_None)

lemma checkLayoutsSpec_checked:
  assumes "checkRemovals opts"
      and "v \<in> set (stillUnmatched baseLayout headLayout)"
  shows "\<exists>d \<in> set (snd (checkLayoutsSpec baseLayout headLayout opts)).
           kind d = VARIABLE_REMOVED \<and> variableName d = name v \<and> baseVariable d = Some v"
proof -
  obtain diffs removed where al:
    "align baseLayout (unmatchedByName baseLayout headLayout) headLayout = (diffs, removed)"
    by (cases "align baseLayout (unmatchedByName baseLayout headLayout) headLayout")
  with assms(2) have v: "v \<in> set removed" by (simp add: stillUnmatched_def)
  show ?thesis
  proof (cases "if onChainEnabled opts then optProvider opts else None")
    case None
    with al assms(1) v show ?thesis
      by (auto simp: checkLayoutsSpec_def removal_def intro!: bexI [of _ "removal v"])
  next
    case (Some read)
    with al assms(1) v annotateRemoval_removal [of v "optAddress opts" read] show ?thesis
      by (auto simp: checkLayoutsSpec_def
            intro!: bexI [of _ "annotateRemoval (removal v) (optAddress opts) read"])
  qed
qed

section \<open>Identity\<close>

text \<open>
  C4. A layout whose variable names are distinct, as the layout model requires, diffed
  against itself gives no diff whatever the options; the diff phase then emits nothing but
  the end of its group and returns normally.
\<close>

theorem identity_no_diffs:
  assumes "distinct (map name layout)"
  shows "snd (checkLayoutsSpec layout layout opts) = []
       \<and> reportDiffs r (snd (checkLayoutsSpec layout layout opts)) = ([EndGroup], Inr ())"
  using checkLayoutsSpec_identity [OF assms, of opts]
  by (simp add: reportDiffs_Nil)

theorem identity_no_diffs_witness:
  "distinct (map name [owner, total])
   \<and> snd (checkLayoutsSpec [owner, total] [owner, total]
            \<lparr>optAddress = ''0xabc'', optProvider = None, checkRemovals = True\<rparr>) = []
   \<and> reportDiffs (sampleReporter diffLevelsSpec True)
        (snd (checkLayoutsSpec [owner, total] [owner, total]
            \<lparr>optAddress = ''0xabc'', optProvider = None, checkRemovals = True\<rparr>))
       = ([EndGroup], Inr ())"
proof -
  have d: "distinct (map name [owner, total])"
    by (simp add: owner_def total_def)
  from identity_no_diffs [OF d] d show ?thesis by simp
qed

section \<open>Removal gating\<close>

text \<open>
  C3. Let a variable be present in the base layout and absent from the head layout: both
  passes leave it unmatched. Without \<^verbatim>\<open>checkRemovals\<close> the output has no \<^verbatim>\<open>VARIABLE_REMOVED\<close>.
  With \<^verbatim>\<open>checkRemovals\<close> the output has a \<^verbatim>\<open>VARIABLE_REMOVED\<close> for that variable. In a run
  with \<^verbatim>\<open>failOnRemoval\<close> whose severity table gives a removal the level of the taxonomy,
  whose source parses and whose formatter keeps the kinds, that diff is annotated through
  \<^verbatim>\<open>error\<close> and the diff phase throws the unsafe-layout error.
\<close>

theorem removal_gating:
  assumes "v \<in> set (stillUnmatched baseLayout headLayout)"
      and "failOnRemoval r"
      and "diffLevels r VARIABLE_REMOVED = diffLevelsSpec VARIABLE_REMOVED"
      and "parseSource r (contractAbs r) = Inr cmpDef"
      and "map (formatDiff r cmpDef)
             (snd (checkLayoutsSpec baseLayout headLayout
                     \<lparr>optAddress = a, optProvider = p, checkRemovals = True\<rparr>))
           = map Inr formattedDiffs"
      and "map ftype formattedDiffs
           = map kind (snd (checkLayoutsSpec baseLayout headLayout
                              \<lparr>optAddress = a, optProvider = p, checkRemovals = True\<rparr>))"
  shows "v \<in> set baseLayout
       \<and> (\<forall>d \<in> set (snd (checkLayoutsSpec baseLayout headLayout
                          \<lparr>optAddress = a, optProvider = p, checkRemovals = False\<rparr>)).
            kind d \<noteq> VARIABLE_REMOVED)
       \<and> (\<exists>i < length (snd (checkLayoutsSpec baseLayout headLayout
                              \<lparr>optAddress = a, optProvider = p, checkRemovals = True\<rparr>)).
            kind (snd (checkLayoutsSpec baseLayout headLayout
                         \<lparr>optAddress = a, optProvider = p, checkRemovals = True\<rparr>) ! i)
              = VARIABLE_REMOVED
            \<and> variableName (snd (checkLayoutsSpec baseLayout headLayout
                         \<lparr>optAddress = a, optProvider = p, checkRemovals = True\<rparr>) ! i)
              = name v
            \<and> baseVariable (snd (checkLayoutsSpec baseLayout headLayout
                         \<lparr>optAddress = a, optProvider = p, checkRemovals = True\<rparr>) ! i)
              = Some v
            \<and> level (diffLevels r) (formattedDiffs ! i) = ''error''
            \<and> fst (reportDiffs r (snd (checkLayoutsSpec baseLayout headLayout
                         \<lparr>optAddress = a, optProvider = p, checkRemovals = True\<rparr>))) ! Suc i
              = ErrorAnnotation (fmessage (formattedDiffs ! i))
                  \<lparr>title = diffTitles r VARIABLE_REMOVED, file = path r cmpDef,
                   startLine = line (loc_start (loc (formattedDiffs ! i))),
                   endLine = line (loc_end (loc (formattedDiffs ! i))),
                   startColumn = column (loc_start (loc (formattedDiffs ! i))),
                   endColumn = column (loc_end (loc (formattedDiffs ! i)))\<rparr>)
       \<and> snd (reportDiffs r (snd (checkLayoutsSpec baseLayout headLayout
                         \<lparr>optAddress = a, optProvider = p, checkRemovals = True\<rparr>)))
           = Inl (Error (trace r) unsafeMessage)"
proof -
  let ?off = "\<lparr>optAddress = a, optProvider = p, checkRemovals = False\<rparr>"
  let ?on = "\<lparr>optAddress = a, optProvider = p, checkRemovals = True\<rparr>"
  let ?diffs = "snd (checkLayoutsSpec baseLayout headLayout ?on)"
  have present: "v \<in> set baseLayout"
    using assms(1) by (rule stillUnmatched_in_base)
  have hidden: "\<forall>d \<in> set (snd (checkLayoutsSpec baseLayout headLayout ?off)).
                  kind d \<noteq> VARIABLE_REMOVED"
    using checkLayoutsSpec_unchecked [of ?off _ baseLayout headLayout] by simp
  have "\<exists>d \<in> set ?diffs.
            kind d = VARIABLE_REMOVED \<and> variableName d = name v \<and> baseVariable d = Some v"
    using checkLayoutsSpec_checked [of ?on v baseLayout headLayout] assms(1) by simp
  then obtain i where i: "i < length ?diffs" "kind (?diffs ! i) = VARIABLE_REMOVED"
    "variableName (?diffs ! i) = name v" "baseVariable (?diffs ! i) = Some v"
    by (auto simp: in_set_conv_nth)
  from assms(5) have len: "length formattedDiffs = length ?diffs"
    by (metis length_map)
  from assms(6) i(1) len have "ftype (formattedDiffs ! i) = kind (?diffs ! i)"
    by (metis nth_map)
  with i(2) have ft: "ftype (formattedDiffs ! i) = VARIABLE_REMOVED" by simp
  have lev: "level (diffLevels r) (formattedDiffs ! i) = ''error''"
    using ft assms(3) by (simp add: level_def diffLevelsSpec_def)
  from i(1) have ne: "?diffs \<noteq> []" by auto
  from ft i(1) len have "\<exists>f \<in> set formattedDiffs. ftype f = VARIABLE_REMOVED"
    by (auto intro!: bexI [of _ "formattedDiffs ! i"])
  with assms(2) have uns: "unsafe (diffLevels r) (failOnRemoval r) formattedDiffs"
    by (simp add: unsafe_iff)
  note rep = reportDiffs_formatted [OF assms(4,5) ne]
  have fails: "snd (reportDiffs r ?diffs) = Inl (Error (trace r) unsafeMessage)"
    using rep uns by simp
  have "fst (reportDiffs r ?diffs) ! Suc i
          = annotate (diffLevels r) (diffTitles r) (path r cmpDef) (formattedDiffs ! i)"
    using rep uns i(1) len by simp
  then have ann: "fst (reportDiffs r ?diffs) ! Suc i
              = ErrorAnnotation (fmessage (formattedDiffs ! i))
                  \<lparr>title = diffTitles r VARIABLE_REMOVED, file = path r cmpDef,
                   startLine = line (loc_start (loc (formattedDiffs ! i))),
                   endLine = line (loc_end (loc (formattedDiffs ! i))),
                   startColumn = column (loc_start (loc (formattedDiffs ! i))),
                   endColumn = column (loc_end (loc (formattedDiffs ! i)))\<rparr>"
    using lev ft by (simp add: annotate_def)
  from present hidden i lev ann fails show ?thesis by blast
qed

theorem removal_gating_witness:
  "total \<in> set (stillUnmatched [owner, total] [owner])
   \<and> snd (checkLayoutsSpec [owner, total] [owner]
          \<lparr>optAddress = [], optProvider = None, checkRemovals = False\<rparr>) = []
   \<and> snd (checkLayoutsSpec [owner, total] [owner]
          \<lparr>optAddress = [], optProvider = None, checkRemovals = True\<rparr>) = [removal total]
   \<and> fst (reportDiffs (sampleReporter diffLevelsSpec True) [removal total]) ! Suc 0
       = ErrorAnnotation ''total''
           \<lparr>title = None, file = ''src/Vault.sol'', startLine = 1, endLine = 1,
            startColumn = 0, endColumn = 0\<rparr>
   \<and> snd (reportDiffs (sampleReporter diffLevelsSpec True) [removal total])
       = Inl (Error ''Error'' unsafeMessage)"
proof -
  have e1: "snd (checkLayoutsSpec [owner, total] [owner]
          \<lparr>optAddress = [], optProvider = None, checkRemovals = False\<rparr>) = []"
    by (simp add: checkLayoutsSpec_def unmatchedByName_def lookupName_def owner_def total_def
          primaryDiff_def onChainEnabled_def)
  have e2: "snd (checkLayoutsSpec [owner, total] [owner]
          \<lparr>optAddress = [], optProvider = None, checkRemovals = True\<rparr>) = [removal total]"
    by (simp add: checkLayoutsSpec_def unmatchedByName_def lookupName_def owner_def total_def
          primaryDiff_def onChainEnabled_def)
  have v: "total \<in> set (stillUnmatched [owner, total] [owner])"
    by (simp add: stillUnmatched_def unmatchedByName_def lookupName_def owner_def total_def
          primaryDiff_def)
  have f: "failOnRemoval (sampleReporter diffLevelsSpec True)"
    by (simp add: sampleReporter_def)
  have t: "diffLevels (sampleReporter diffLevelsSpec True) VARIABLE_REMOVED
             = diffLevelsSpec VARIABLE_REMOVED"
    by (simp add: sampleReporter_def)
  have s: "parseSource (sampleReporter diffLevelsSpec True)
             (contractAbs (sampleReporter diffLevelsSpec True)) = Inr ()"
    by (simp add: sampleReporter_def)
  have m: "map (formatDiff (sampleReporter diffLevelsSpec True) ())
             (snd (checkLayoutsSpec [owner, total] [owner]
                     \<lparr>optAddress = [], optProvider = None, checkRemovals = True\<rparr>))
           = map Inr [\<lparr>ftype = VARIABLE_REMOVED, fmessage = ''total'',
                       loc = \<lparr>loc_start = \<lparr>line = 1, column = 0\<rparr>,
                              loc_end = \<lparr>line = 1, column = 0\<rparr>\<rparr>\<rparr>]"
    unfolding e2 by (simp add: sampleReporter_def plainFormat_def removal_def total_def)
  have k: "map ftype [\<lparr>ftype = VARIABLE_REMOVED, fmessage = ''total'',
                       loc = \<lparr>loc_start = \<lparr>line = 1, column = 0\<rparr>,
                              loc_end = \<lparr>line = 1, column = 0\<rparr>\<rparr>\<rparr>]
           = map kind (snd (checkLayoutsSpec [owner, total] [owner]
                              \<lparr>optAddress = [], optProvider = None, checkRemovals = True\<rparr>))"
    unfolding e2 by (simp add: removal_def)
  from removal_gating [OF v f t s m k] v e1 e2 show ?thesis
    by (auto simp: sampleReporter_def)
qed

text \<open>
  A renamed variable is matched and not removed: \<^verbatim>\<open>owner\<close> renamed to \<^verbatim>\<open>admin\<close> at the same slot,
  offset and type is not left unmatched, and the only diff is the rename.
\<close>

lemma rename_sample:
  "owner \<notin> set (stillUnmatched [owner] [admin])
   \<and> map kind (snd (checkLayoutsSpec [owner] [admin]
                      \<lparr>optAddress = [], optProvider = None, checkRemovals = True\<rparr>))
       = [VARIABLE_RENAMED]"
  by (simp add: stillUnmatched_def checkLayoutsSpec_def unmatchedByName_def lookupName_def
        owner_def admin_def samePlace_def onChainEnabled_def)

section \<open>On-chain annotation\<close>

text \<open>
  C5. With the address or the endpoint missing, \<^verbatim>\<open>checkLayouts\<close> reads nothing on chain and
  attaches no evidence. An empty \<^verbatim>\<open>rpcUrl\<close> makes the provider of line 53 undefined, so the
  options that \<^verbatim>\<open>_run\<close> passes cause no on-chain read, whatever the address.
\<close>

theorem onchain_needs_address_and_provider:
  assumes "optAddress opts = [] \<or> optProvider opts = None"
  shows "fst (checkLayoutsSpec baseLayout headLayout opts) = []
       \<and> (\<forall>d \<in> set (snd (checkLayoutsSpec baseLayout headLayout opts)). onChainEvidence d = None)
       \<and> (rpcUrl w = [] \<longrightarrow>
            provider w = None
            \<and> fst (checkLayoutsSpec baseLayout headLayout
                     \<lparr>optAddress = address w, optProvider = provider w,
                      checkRemovals = failOnRemoval w\<rparr>) = [])"
proof -
  obtain diffs removed where al:
    "align baseLayout (unmatchedByName baseLayout headLayout) headLayout = (diffs, removed)"
    by (cases "align baseLayout (unmatchedByName baseLayout headLayout) headLayout")
  have off: "(if onChainEnabled opts then optProvider opts else None) = None"
    using assms by (auto simp: onChainEnabled_def)
  have reads: "fst (checkLayoutsSpec baseLayout headLayout opts) = []"
    using al off by (simp add: checkLayoutsSpec_def)
  have "onChainEvidence d = None" if "d \<in> set diffs" for d
    using that al align_kinds [of d baseLayout "unmatchedByName baseLayout headLayout" headLayout]
    by simp
  then have evidence:
    "\<forall>d \<in> set (snd (checkLayoutsSpec baseLayout headLayout opts)). onChainEvidence d = None"
    using al off by (auto simp: checkLayoutsSpec_def removal_def)
  have "provider w = None
            \<and> fst (checkLayoutsSpec baseLayout headLayout
                     \<lparr>optAddress = address w, optProvider = provider w,
                      checkRemovals = failOnRemoval w\<rparr>) = []" if "rpcUrl w = []"
    using that al by (simp add: provider_def checkLayoutsSpec_def onChainEnabled_def)
  with reads evidence show ?thesis by blast
qed

theorem onchain_needs_address_and_provider_witness:
  "fst (checkLayoutsSpec [owner, total] [owner]
          \<lparr>optAddress = ''0xabc'', optProvider = None, checkRemovals = True\<rparr>) = []
   \<and> provider ((sampleWorld ''pull_request'' True ''owner'' (Some 12) Exhausted [])
                 \<lparr>address := ''0xabc''\<rparr>) = None
   \<and> fst (checkLayoutsSpec [owner, total] [owner]
            \<lparr>optAddress = address ((sampleWorld ''pull_request'' True ''owner'' (Some 12)
                                      Exhausted []) \<lparr>address := ''0xabc''\<rparr>),
             optProvider = provider ((sampleWorld ''pull_request'' True ''owner'' (Some 12)
                                        Exhausted []) \<lparr>address := ''0xabc''\<rparr>),
             checkRemovals = failOnRemoval ((sampleWorld ''pull_request'' True ''owner''
                                        (Some 12) Exhausted []) \<lparr>address := ''0xabc''\<rparr>)\<rparr>)
       = []"
  using onchain_needs_address_and_provider
    [of "\<lparr>optAddress = ''0xabc'', optProvider = None, checkRemovals = True\<rparr>"
        "[owner, total]" "[owner]"
        "(sampleWorld ''pull_request'' True ''owner'' (Some 12) Exhausted [])
           \<lparr>address := ''0xabc''\<rparr>"]
  by (simp add: sampleWorld_def)

text \<open>With both an address and an endpoint, the slot of a removed variable is read.\<close>

lemma onchain_read_sample:
  "checkLayoutsSpec [owner, total] [owner]
     \<lparr>optAddress = ''0xabc'', optProvider = Some (\<lambda>addr sl. Some 5), checkRemovals = True\<rparr>
   = ([(''0xabc'', 1)],
      [\<lparr>kind = VARIABLE_REMOVED, variableName = ''total'', counterpart = None,
        baseVariable = Some total, headVariable = None, onChainEvidence = Some 5\<rparr>])"
  by (simp add: checkLayoutsSpec_def unmatchedByName_def lookupName_def owner_def total_def
        primaryDiff_def onChainEnabled_def annotateRemoval_def removal_def)

end
